theory Spec2Isabelle
  imports Main "HOL-Library.Word"
begin

unbundle bit_operations_syntax

section \<open>Bytes, strings and errors\<close>

text \<open>
  A Go \<^verbatim>\<open>string\<close> and a Go \<^verbatim>\<open>[]byte\<close> are both sequences of bytes. HOL's \<^typ>\<open>char\<close>
  is a byte, so both are modelled by \<^typ>\<open>string\<close>; the conversions
  \<^verbatim>\<open>string(buffer[:n])\<close> and \<^verbatim>\<open>[]byte(value)\<close> are the identity.
\<close>

definition dquote :: char where
  "dquote = CHR 0x22"

definition backslash :: char where
  "backslash = CHR 0x5C"

definition slash :: char where
  "slash = CHR 0x2F"

text \<open>
  Go error values. \<^verbatim>\<open>io.EOF\<close> is the one sentinel the code compares against; every other
  error is opaque and carried by its message. \<^verbatim>\<open>fmt.Errorf("...: %w", err)\<close> wraps an error
  and keeps it as its cause.
\<close>

datatype error = EOF | Failure string | Wrapped string error

fun cause :: "error \<Rightarrow> error" where
  "cause (Wrapped msg e) = cause e"
| "cause e = e"

section \<open>The standard library functions the code calls\<close>

subsection \<open>strconv.Itoa\<close>

definition digit :: "nat \<Rightarrow> char" where
  "digit d = ''0123456789'' ! (d mod 10)"

function decimal :: "nat \<Rightarrow> string" where
  "decimal n = (if n < 10 then [digit n] else decimal (n div 10) @ [digit n])"
  by pat_completeness auto
termination
  by (relation "measure (\<lambda>n. n)") auto

definition Itoa :: "int \<Rightarrow> string" where
  "Itoa i = (if i < 0 then CHR ''-'' # decimal (nat (- i)) else decimal (nat i))"

subsection \<open>path/filepath.Base (Unix: the separator is the slash, there is no volume name)\<close>

text \<open>
  \<^verbatim>\<open>
  func Base(path string) string {
      if path == "" { return "." }
      for len(path) > 0 && os.IsPathSeparator(path[len(path)-1]) { path = path[0 : len(path)-1] }
      path = path[len(VolumeName(path)):]
      i := len(path) - 1
      for i >= 0 && !os.IsPathSeparator(path[i]) { i-- }
      if i >= 0 { path = path[i+1:] }
      if path == "" { return string(Separator) }
      return path
  }
  \<close>
\<close>

definition stripTrailingSlashes :: "string \<Rightarrow> string" where
  "stripTrailingSlashes path = rev (dropWhile (\<lambda>c. c = slash) (rev path))"

definition lastElement :: "string \<Rightarrow> string" where
  "lastElement path = rev (takeWhile (\<lambda>c. c \<noteq> slash) (rev path))"

definition Base :: "string \<Rightarrow> string" where
  "Base path =
     (if path = [] then ''.''
      else let p = lastElement (stripTrailingSlashes path)
           in if p = [] then [slash] else p)"

subsection \<open>strings.NewReplacer and escapeQuotes (form\_builder.go)\<close>

text \<open>
  \<^verbatim>\<open>var quoteEscaper = strings.NewReplacer("\\", "\\\\", `"`, "\\\"")\<close>:
  both old strings are single bytes, so the replacer works byte by byte, left to right.
\<close>

fun escapeQuotes :: "string \<Rightarrow> string" where
  "escapeQuotes [] = []"
| "escapeQuotes (c # s) =
     (if c = backslash then [backslash, backslash]
      else if c = dquote then [backslash, dquote]
      else [c]) @ escapeQuotes s"

subsection \<open>net/http.DetectContentType\<close>

text \<open>
  The sniffing algorithm of \<^verbatim>\<open>net/http/sniff.go\<close>: at most 512 bytes are looked at, the
  signatures are tried in table order, and the first one that answers a non-empty type wins;
  when none does the type is \<^verbatim>\<open>application/octet-stream\<close>. The last signature of the table
  is the one for plain text, which accepts every prefix without a binary control byte.
  \<^verbatim>\<open>int\<close> has 64 bits.
\<close>

definition sniffLen :: nat where
  "sniffLen = 512"

definition isWS :: "char \<Rightarrow> bool" where
  "isWS b = (b = CHR 0x09 \<or> b = CHR 0x0A \<or> b = CHR 0x0C \<or> b = CHR 0x0D \<or> b = CHR 0x20)"

definition isTT :: "char \<Rightarrow> bool" where
  "isTT b = (b = CHR 0x20 \<or> b = CHR 0x3E)"

datatype sniffSig =
    htmlSig string
  | maskedSig string string bool string
  | exactSig string string
  | mp4Sig
  | textSig

definition htmlByteOk :: "char \<times> char \<Rightarrow> bool" where
  "htmlByteOk = (\<lambda>(b, db).
     (of_char b :: nat) =
       (if (0x41 :: nat) \<le> of_char b \<and> (of_char b :: nat) \<le> 0x5A
        then of_char db AND 0xDF else of_char db))"

definition maskedByteOk :: "char \<times> char \<times> char \<Rightarrow> bool" where
  "maskedByteOk = (\<lambda>(pb, mb, db). (of_char db :: nat) AND of_char mb = of_char pb)"

definition isBinaryByte :: "char \<Rightarrow> bool" where
  "isBinaryByte b =
     (let n = (of_char b :: nat)
      in n \<le> 0x08 \<or> n = 0x0B \<or> (0x0E \<le> n \<and> n \<le> 0x1A) \<or> (0x1C \<le> n \<and> n \<le> 0x1F))"

definition bigEndianUint32 :: "string \<Rightarrow> nat" where
  "bigEndianUint32 b =
     ((of_char (b ! 0) * 256 + of_char (b ! 1)) * 256 + of_char (b ! 2)) * 256 + of_char (b ! 3)"

text \<open>
  \<open>sigMatch\<close> is the \<^verbatim>\<open>match\<close> method of each signature kind; the empty string means
  ``no match''. The arguments are the data (already cut to 512 bytes) and the index of its
  first non-whitespace byte.
\<close>

fun sigMatch :: "sniffSig \<Rightarrow> string \<Rightarrow> nat \<Rightarrow> string" where
  "sigMatch (htmlSig h) dat firstNonWS =
     (let d = drop firstNonWS dat
      in if length d < length h + 1 then []
         else if \<not> list_all htmlByteOk (zip h d) then []
         else if \<not> isTT (d ! length h) then []
         else ''text/html; charset=utf-8'')"
| "sigMatch (maskedSig msk pat skipWS ct) dat firstNonWS =
     (let d = (if skipWS then drop firstNonWS dat else dat)
      in if length pat \<noteq> length msk then []
         else if length d < length pat then []
         else if \<not> list_all maskedByteOk (zip pat (zip msk d)) then []
         else ct)"
| "sigMatch (exactSig sg ct) dat firstNonWS =
     (if take (length sg) dat = sg then ct else [])"
| "sigMatch mp4Sig dat firstNonWS =
     (if length dat < 12 then []
      else let boxSize = bigEndianUint32 (take 4 dat)
           in if length dat < boxSize \<or> boxSize mod 4 \<noteq> 0 then []
              else if take 4 (drop 4 dat) \<noteq> ''ftyp'' then []
              else if list_ex (\<lambda>st. st \<noteq> 12 \<and> take 3 (drop st dat) = ''mp4'')
                        (map (\<lambda>k. 8 + 4 * k) [0 ..< (boxSize - 8) div 4])
                   then ''video/mp4'' else [])"
| "sigMatch textSig dat firstNonWS =
     (if list_ex isBinaryByte (drop firstNonWS dat) then [] else ''text/plain; charset=utf-8'')"

definition FF :: char where
  "FF = CHR 0xFF"

definition NUL :: char where
  "NUL = CHR 0x00"

definition sniffSignatures :: "sniffSig list" where
  "sniffSignatures =
    [ htmlSig ''<!DOCTYPE HTML'', htmlSig ''<HTML'', htmlSig ''<HEAD'', htmlSig ''<SCRIPT'',
      htmlSig ''<IFRAME'', htmlSig ''<H1'', htmlSig ''<DIV'', htmlSig ''<FONT'',
      htmlSig ''<TABLE'', htmlSig ''<A'', htmlSig ''<STYLE'', htmlSig ''<TITLE'',
      htmlSig ''<B'', htmlSig ''<BODY'', htmlSig ''<BR'', htmlSig ''<P'', htmlSig ''<!--'',
      maskedSig (replicate 5 FF) ''<?xml'' True ''text/xml; charset=utf-8'',
      exactSig ''%PDF-'' ''application/pdf'',
      exactSig ''%!PS-Adobe-'' ''application/postscript'',
      maskedSig [FF, FF, NUL, NUL] [CHR 0xFE, CHR 0xFF, NUL, NUL] False
        ''text/plain; charset=utf-16be'',
      maskedSig [FF, FF, NUL, NUL] [CHR 0xFF, CHR 0xFE, NUL, NUL] False
        ''text/plain; charset=utf-16le'',
      maskedSig [FF, FF, FF, NUL] [CHR 0xEF, CHR 0xBB, CHR 0xBF, NUL] False
        ''text/plain; charset=utf-8'',
      exactSig [NUL, NUL, CHR 0x01, NUL] ''image/x-icon'',
      exactSig [NUL, NUL, CHR 0x02, NUL] ''image/x-icon'',
      exactSig ''BM'' ''image/bmp'',
      exactSig ''GIF87a'' ''image/gif'',
      exactSig ''GIF89a'' ''image/gif'',
      maskedSig (replicate 4 FF @ replicate 4 NUL @ replicate 6 FF)
        (''RIFF'' @ replicate 4 NUL @ ''WEBPVP'') False ''image/webp'',
      exactSig (CHR 0x89 # ''PNG'' @ [CHR 0x0D, CHR 0x0A, CHR 0x1A, CHR 0x0A]) ''image/png'',
      exactSig [CHR 0xFF, CHR 0xD8, CHR 0xFF] ''image/jpeg'',
      maskedSig (replicate 4 FF @ replicate 4 NUL @ replicate 4 FF)
        (''FORM'' @ replicate 4 NUL @ ''AIFF'') False ''audio/aiff'',
      maskedSig (replicate 3 FF) ''ID3'' False ''audio/mpeg'',
      maskedSig (replicate 5 FF) (''OggS'' @ [NUL]) False ''application/ogg'',
      maskedSig (replicate 8 FF) (''MThd'' @ [NUL, NUL, NUL, CHR 0x06]) False ''audio/midi'',
      maskedSig (replicate 4 FF @ replicate 4 NUL @ replicate 4 FF)
        (''RIFF'' @ replicate 4 NUL @ ''AVI '') False ''video/avi'',
      maskedSig (replicate 4 FF @ replicate 4 NUL @ replicate 4 FF)
        (''RIFF'' @ replicate 4 NUL @ ''WAVE'') False ''audio/wave'',
      mp4Sig,
      exactSig [CHR 0x1A, CHR 0x45, CHR 0xDF, CHR 0xA3] ''video/webm'',
      maskedSig (replicate 34 NUL @ [FF, FF]) (replicate 34 NUL @ ''LP'') False
        ''application/vnd.ms-fontobject'',
      exactSig [NUL, CHR 0x01, NUL, NUL] ''font/ttf'',
      exactSig ''OTTO'' ''font/otf'',
      exactSig ''ttcf'' ''font/collection'',
      exactSig ''wOFF'' ''font/woff'',
      exactSig ''wOF2'' ''font/woff2'',
      exactSig [CHR 0x1F, CHR 0x8B, CHR 0x08] ''application/x-gzip'',
      exactSig (''PK'' @ [CHR 0x03, CHR 0x04]) ''application/zip'',
      exactSig (''Rar!'' @ [CHR 0x1A, CHR 0x07, NUL]) ''application/x-rar-compressed'',
      exactSig (''Rar!'' @ [CHR 0x1A, CHR 0x07, CHR 0x01, NUL]) ''application/x-rar-compressed'',
      exactSig (NUL # ''asm'') ''application/wasm'',
      textSig ]"

fun firstMatch :: "sniffSig list \<Rightarrow> string \<Rightarrow> nat \<Rightarrow> string" where
  "firstMatch [] dat firstNonWS = ''application/octet-stream''"
| "firstMatch (sg # sigs) dat firstNonWS =
     (let ct = sigMatch sg dat firstNonWS
      in if ct \<noteq> [] then ct else firstMatch sigs dat firstNonWS)"

definition DetectContentType :: "string \<Rightarrow> string" where
  "DetectContentType dat0 =
     (let dat = (if length dat0 > sniffLen then take sniffLen dat0 else dat0);
          firstNonWS = length (takeWhile isWS dat)
      in firstMatch sniffSignatures dat firstNonWS)"

subsection \<open>io.Reader, strings.Reader, os.File, io.MultiReader\<close>

text \<open>
  A Go \<^verbatim>\<open>io.Reader\<close> is an object with one method, \<^verbatim>\<open>Read(p []byte) (n int, err error)\<close>,
  that may hand out fewer bytes than asked for, may return bytes and an error in one call,
  and may fail with any error. Three kinds of caller-supplied readers are modelled:

  \<^item> \<open>Stream name script\<close>: any forward-only reader, given by the script of what its
    successive \<^verbatim>\<open>Read\<close> calls return. One entry is the bytes of one call and the error
    returned with them; an entry longer than the buffer is handed out in pieces, its error
    with the last piece; once the script is used up every call returns \<^verbatim>\<open>(0, io.EOF)\<close>.
    \<open>name\<close> is \<open>Some n\<close> when the reader's dynamic type has a method
    \<^verbatim>\<open>Name() string\<close> that returns \<open>n\<close>.
  \<^item> \<open>OsFile (File name contents offset)\<close>: an open \<^verbatim>\<open>*os.File\<close> on a regular file.
  \<^item> \<open>StringsReader s\<close>: a \<^verbatim>\<open>*strings.Reader\<close> with \<open>s\<close> still unread.

  A \<open>reader\<close> is one of these or the \<^verbatim>\<open>io.MultiReader\<close> built by
  \<^verbatim>\<open>detectMimeType\<close>. A nil reader is not modelled: the request records below hold a
  reader where the Go field may be nil only for the mask.
\<close>

type_synonym chunk = "string \<times> error option"

datatype osFile = File string string nat

datatype source =
    Stream "string option" "chunk list"
  | OsFile osFile
  | StringsReader string

datatype reader = Plain source | MultiReader "source list"

fun fileName :: "osFile \<Rightarrow> string" where
  "fileName (File name contents offset) = name"

text \<open>\<^verbatim>\<open>file.Seek(0, 0)\<close>.\<close>

fun seekStart :: "osFile \<Rightarrow> osFile" where
  "seekStart (File name contents offset) = File name contents 0"

text \<open>\<^verbatim>\<open>r.Read(p)\<close> with \<open>k = len(p)\<close>: the bytes read, the error, and the reader afterwards.\<close>

fun ReadSource :: "nat \<Rightarrow> source \<Rightarrow> (string \<times> error option) \<times> source" where
  "ReadSource k (Stream name []) = (([], Some EOF), Stream name [])"
| "ReadSource k (Stream name ((d, e) # script)) =
     (if length d \<le> k then ((d, e), Stream name script)
      else ((take k d, None), Stream name ((drop k d, e) # script)))"
| "ReadSource k (OsFile (File name contents offset)) =
     (if k = 0 then (([], None), OsFile (File name contents offset))
      else if length contents \<le> offset then (([], Some EOF), OsFile (File name contents offset))
      else let d = take k (drop offset contents)
           in ((d, None), OsFile (File name contents (offset + length d))))"
| "ReadSource k (StringsReader s) =
     (if s = [] then (([], Some EOF), StringsReader s)
      else ((take k s, None), StringsReader (drop k s)))"

text \<open>
  \<^verbatim>\<open>
  func (mr *multiReader) Read(p []byte) (n int, err error) {
      for len(mr.readers) > 0 {
          ...
          n, err = mr.readers[0].Read(p)
          if err == EOF { mr.readers = mr.readers[1:] }
          if n > 0 || err != EOF {
              if err == EOF && len(mr.readers) > 0 { err = nil }
              return
          }
      }
      return 0, EOF
  }
  \<close>
\<close>

fun ReadMulti :: "nat \<Rightarrow> source list \<Rightarrow> (string \<times> error option) \<times> source list" where
  "ReadMulti k [] = (([], Some EOF), [])"
| "ReadMulti k (r # readers) =
     (case ReadSource k r of
        ((d, e), r') \<Rightarrow>
          if d = [] \<and> e = Some EOF then ReadMulti k readers
          else if e = Some EOF then ((d, if readers \<noteq> [] then None else Some EOF), readers)
          else ((d, e), r' # readers))"

fun Read :: "nat \<Rightarrow> reader \<Rightarrow> (string \<times> error option) \<times> reader" where
  "Read k (Plain r) = (case ReadSource k r of (res, r') \<Rightarrow> (res, Plain r'))"
| "Read k (MultiReader readers) =
     (case ReadMulti k readers of (res, readers') \<Rightarrow> (res, MultiReader readers'))"

text \<open>The type assertion \<^verbatim>\<open>r.(interface{ Name() string })\<close>: the name, when the method exists.\<close>

fun readerName :: "reader \<Rightarrow> string option" where
  "readerName (Plain (Stream name script)) = name"
| "readerName (Plain (OsFile f)) = Some (fileName f)"
| "readerName (Plain (StringsReader s)) = None"
| "readerName (MultiReader readers) = None"

subsection \<open>io.Copy\<close>

text \<open>
  \<^verbatim>\<open>io.Copy(dst, src)\<close> reads \<open>src\<close> with a 32 KiB buffer until a call returns an error,
  writes every byte it got, and reports the error unless it is \<^verbatim>\<open>io.EOF\<close>. The
  destination here is a part of a multipart writer over a \<^verbatim>\<open>bytes.Buffer\<close>, whose
  \<^verbatim>\<open>Write\<close> does not fail; the result is the bytes written and the error. (Where a reader
  has a \<^verbatim>\<open>WriteTo\<close> fast path, it copies the same bytes.)

  The measure below bounds the number of calls that return no error.
\<close>

definition copyBufferSize :: nat where
  "copyBufferSize = 32768"

fun chunkSize :: "chunk \<Rightarrow> nat" where
  "chunkSize (d, e) = Suc (length d)"

fun sourceSize :: "source \<Rightarrow> nat" where
  "sourceSize (Stream name script) = sum_list (map chunkSize script)"
| "sourceSize (OsFile (File name contents offset)) = length contents - offset"
| "sourceSize (StringsReader s) = length s"

fun readerSize :: "reader \<Rightarrow> nat" where
  "readerSize (Plain r) = sourceSize r"
| "readerSize (MultiReader readers) = sum_list (map (\<lambda>r. Suc (sourceSize r)) readers)"

lemma ReadSource_progress:
  "0 < k \<Longrightarrow> ReadSource k r = ((d, None), r') \<Longrightarrow> sourceSize r' < sourceSize r"
proof (induction k r rule: ReadSource.induct)
  case (1 k name)
  then show ?case by simp
next
  case (2 k name d0 e script)
  then show ?case by (auto split: if_splits)
next
  case (3 k name contents offset)
  then show ?case by (auto simp: Let_def split: if_splits)
next
  case (4 k s)
  then show ?case by (auto split: if_splits)
qed

lemma ReadMulti_progress:
  "0 < k \<Longrightarrow> ReadMulti k readers = ((d, None), readers') \<Longrightarrow>
   sum_list (map (\<lambda>r. Suc (sourceSize r)) readers')
     < sum_list (map (\<lambda>r. Suc (sourceSize r)) readers)"
proof (induction readers)
  case Nil
  then show ?case by simp
next
  case (Cons r readers)
  obtain d0 e0 r0 where rd: "ReadSource k r = ((d0, e0), r0)"
    by (metis prod.exhaust)
  show ?case
  proof (cases "d0 = [] \<and> e0 = Some EOF")
    case True
    with Cons rd show ?thesis by force
  next
    case False
    show ?thesis
    proof (cases "e0 = Some EOF")
      case True
      with Cons.prems rd False show ?thesis by (auto split: if_splits)
    next
      case False
      with Cons.prems rd \<open>\<not> (d0 = [] \<and> e0 = Some EOF)\<close>
      have "e0 = None" and "readers' = r0 # readers" and "d = d0" by auto
      with ReadSource_progress [OF Cons.prems(1), of r d0 r0] rd show ?thesis by simp
    qed
  qed
qed

lemma Read_progress:
  "0 < k \<Longrightarrow> Read k r = ((d, None), r') \<Longrightarrow> readerSize r' < readerSize r"
proof (cases r)
  case (Plain s)
  assume "0 < k" and "Read k r = ((d, None), r')"
  with Plain ReadSource_progress [of k s d] show ?thesis
    by (auto split: prod.splits)
next
  case (MultiReader readers)
  assume "0 < k" and "Read k r = ((d, None), r')"
  with MultiReader ReadMulti_progress [of k readers d] show ?thesis
    by (auto split: prod.splits)
qed

function Copy :: "reader \<Rightarrow> string \<times> error option" where
  "Copy src =
     (case Read copyBufferSize src of
        ((d, None), src') \<Rightarrow> (case Copy src' of (ds, err) \<Rightarrow> (d @ ds, err))
      | ((d, Some e), src') \<Rightarrow> (d, if e = EOF then None else Some e))"
  by pat_completeness auto
termination
  apply (relation "measure readerSize")
   apply simp
  apply (simp add: copyBufferSize_def)
  apply (metis Read_progress zero_less_numeral)
  done

declare Copy.simps [simp del]

subsection \<open>mime/multipart.Writer\<close>

text \<open>
  A multipart writer appends to its sink, for every part, a boundary line, the part's header
  lines (sorted by key) and an empty line, then whatever is written to the part; \<^verbatim>\<open>Close\<close>
  appends the terminating boundary line. The state kept here is the boundary, the parts in
  the order they were created, and whether the terminator was written; \<open>bodyBytes\<close> gives the
  bytes in the sink. The sink is the \<^verbatim>\<open>bytes.Buffer\<close> that \<^verbatim>\<open>CreateVariImage\<close> and
  \<^verbatim>\<open>CreateEditImage\<close> hand to the builder; its \<^verbatim>\<open>Write\<close> returns no error, so
  \<^verbatim>\<open>CreatePart\<close>, the writes to a part and \<^verbatim>\<open>Close\<close> return none either.
\<close>

record part =
  header :: "(string \<times> string) list"
  body :: string

record Writer =
  boundary :: string
  parts :: "part list"
  closed :: bool

definition NewWriter :: "string \<Rightarrow> Writer" where
  "NewWriter b = \<lparr>boundary = b, parts = [], closed = False\<rparr>"

definition CreatePart :: "(string \<times> string) list \<Rightarrow> Writer \<Rightarrow> Writer" where
  "CreatePart h w = w\<lparr>parts := parts w @ [\<lparr>header = h, body = []\<rparr>]\<rparr>"

text \<open>Writing to the part returned by the last \<^verbatim>\<open>CreatePart\<close>.\<close>

definition writeLastPart :: "string \<Rightarrow> Writer \<Rightarrow> Writer" where
  "writeLastPart dat w =
     (case rev (parts w) of
        [] \<Rightarrow> w
      | p # ps \<Rightarrow> w\<lparr>parts := rev ps @ [p\<lparr>body := body p @ dat\<rparr>]\<rparr>)"

definition CRLF :: string where
  "CRLF = [CHR 0x0D, CHR 0x0A]"

definition headerLine :: "string \<times> string \<Rightarrow> string" where
  "headerLine = (\<lambda>(k, v). k @ '': '' @ v @ CRLF)"

definition partBytes :: "string \<Rightarrow> part \<Rightarrow> string" where
  "partBytes b p = ''--'' @ b @ CRLF @ concat (map headerLine (header p)) @ CRLF @ body p"

fun joinParts :: "string list \<Rightarrow> string" where
  "joinParts [] = []"
| "joinParts [p] = p"
| "joinParts (p # ps) = p @ CRLF @ joinParts ps"

definition bodyBytes :: "Writer \<Rightarrow> string" where
  "bodyBytes w =
     joinParts (map (partBytes (boundary w)) (parts w))
       @ (if closed w then CRLF @ ''--'' @ boundary w @ ''--'' @ CRLF else [])"

text \<open>
  \<^verbatim>\<open>multipart.Writer.CreateFormField\<close> and \<^verbatim>\<open>multipart.Writer.CreateFormFile\<close> build their
  header with a replacer of their own that treats backslash and quote as \<open>escapeQuotes\<close>
  does (recent releases also percent-encode CR and LF there; the names the image functions
  pass hold neither). \<^verbatim>\<open>CreateFormFile\<close> passes the file name through as it is given, with
  no base name taken, and always sets the type \<^verbatim>\<open>application/octet-stream\<close>.
\<close>

definition fieldDisposition :: "string \<Rightarrow> string" where
  "fieldDisposition fieldname =
     ''form-data; name='' @ [dquote] @ escapeQuotes fieldname @ [dquote]"

definition fileDisposition :: "string \<Rightarrow> string \<Rightarrow> string" where
  "fileDisposition fieldname filename =
     ''form-data; name='' @ [dquote] @ escapeQuotes fieldname @ [dquote]
       @ ''; filename='' @ [dquote] @ escapeQuotes filename @ [dquote]"

definition multipartCreateFormField :: "string \<Rightarrow> Writer \<Rightarrow> Writer" where
  "multipartCreateFormField fieldname w =
     CreatePart [(''Content-Disposition'', fieldDisposition fieldname)] w"

definition multipartCreateFormFile :: "string \<Rightarrow> string \<Rightarrow> Writer \<Rightarrow> Writer" where
  "multipartCreateFormFile fieldname filename w =
     CreatePart [(''Content-Disposition'', fileDisposition fieldname filename),
                 (''Content-Type'', ''application/octet-stream'')] w"

definition multipartWriteField :: "string \<Rightarrow> string \<Rightarrow> Writer \<Rightarrow> Writer" where
  "multipartWriteField fieldname val w = writeLastPart val (multipartCreateFormField fieldname w)"

definition multipartClose :: "Writer \<Rightarrow> Writer" where
  "multipartClose w = w\<lparr>closed := True\<rparr>"

definition multipartFormDataContentType :: "Writer \<Rightarrow> string" where
  "multipartFormDataContentType w =
     (let b = boundary w;
          b' = (if list_ex (\<lambda>c. c \<in> set (''()<>@,;:'' @ [backslash, dquote] @ ''/[]?= '')) b
                then [dquote] @ b @ [dquote] else b)
      in ''multipart/form-data; boundary='' @ b')"

section \<open>form\_builder.go\<close>

type_synonym 's step = "'s \<Rightarrow> error option \<times> 's"

text \<open>
  \<^verbatim>\<open>
  func detectMimeType(r io.Reader) (string, io.Reader, error) {
      buffer := make([]byte, 512)
      n, err := r.Read(buffer)
      if err != nil && err != io.EOF { return "", nil, err }
      mimeType := http.DetectContentType(buffer[:n])
      newReader := io.MultiReader(strings.NewReader(string(buffer[:n])), r)
      return mimeType, newReader, nil
  }
  \<close>
\<close>

definition detectMimeType :: "source \<Rightarrow> error + (string \<times> reader)" where
  "detectMimeType r =
     (case ReadSource 512 r of
        ((buffer, err), r') \<Rightarrow>
          if err \<noteq> None \<and> err \<noteq> Some EOF then Inl (the err)
          else let mimeType = DetectContentType buffer;
                   newReader = MultiReader [StringsReader buffer, r']
               in Inr (mimeType, newReader))"

definition CreateFormFileReaderWithMimeType ::
  "string \<Rightarrow> reader \<Rightarrow> string \<Rightarrow> string \<Rightarrow> Writer step" where
  "CreateFormFileReaderWithMimeType fieldname r filename0 mimeType w =
     (let filename1 =
            (case readerName r of
               Some n \<Rightarrow> if filename0 = [] then n else filename0
             | None \<Rightarrow> filename0);
          filename =
            (if filename1 = [] then
               (if mimeType = ''image/png'' then ''image.png''
                else if mimeType = ''image/jpeg'' \<or> mimeType = ''image/jpg'' then ''image.jpg''
                else if mimeType = ''image/gif'' then ''image.gif''
                else if mimeType = ''image/webp'' then ''image.webp''
                else if mimeType = ''image/bmp'' then ''image.bmp''
                else if mimeType = ''image/tiff'' then ''image.tiff''
                else ''file.bin'')
             else filename1);
          h = [(''Content-Disposition'', fileDisposition fieldname (Base filename))]
                @ (if mimeType \<noteq> [] then [(''Content-Type'', mimeType)] else []);
          fieldWriter = CreatePart h w
      in case Copy r of
           (written, Some err) \<Rightarrow> (Some err, writeLastPart written fieldWriter)
         | (written, None) \<Rightarrow> (None, writeLastPart written fieldWriter))"

definition CreateFormFileReader :: "string \<Rightarrow> source \<Rightarrow> string \<Rightarrow> Writer step" where
  "CreateFormFileReader fieldname r filename w =
     (case detectMimeType r of
        Inl err \<Rightarrow> (Some (Wrapped ''failed to detect MIME type: '' err), w)
      | Inr (mimeType, newReader) \<Rightarrow>
          CreateFormFileReaderWithMimeType fieldname newReader filename mimeType w)"

definition createFormFile :: "string \<Rightarrow> reader \<Rightarrow> string \<Rightarrow> Writer step" where
  "createFormFile fieldname r filename w =
     (if filename = [] then (Some (Failure ''filename cannot be empty''), w)
      else let fieldWriter = multipartCreateFormFile fieldname filename w
           in case Copy r of
                (written, Some err) \<Rightarrow> (Some err, writeLastPart written fieldWriter)
              | (written, None) \<Rightarrow> (None, writeLastPart written fieldWriter))"

definition CreateFormFile :: "string \<Rightarrow> osFile \<Rightarrow> Writer step" where
  "CreateFormFile fieldname f = createFormFile fieldname (Plain (OsFile f)) (fileName f)"

definition WriteField :: "string \<Rightarrow> string \<Rightarrow> Writer step" where
  "WriteField fieldname val w = (None, multipartWriteField fieldname val w)"

definition Close :: "Writer step" where
  "Close w = (None, multipartClose w)"

definition FormDataContentType :: "Writer \<Rightarrow> string" where
  "FormDataContentType w = multipartFormDataContentType w"

text \<open>
  The interface \<^verbatim>\<open>FormBuilder\<close>: the client obtains its builder from the field
  \<^verbatim>\<open>createFormBuilder\<close>, so \<^verbatim>\<open>CreateVariImage\<close> and \<^verbatim>\<open>CreateEditImage\<close> run against any
  implementation. An implementation is a record of operations over its own state \<open>'s\<close>,
  which includes the buffer it was created over (\<open>fbBody\<close> reads that buffer).
\<close>

record 's FormBuilder =
  fbCreateFormFile :: "string \<Rightarrow> osFile \<Rightarrow> 's step"
  fbCreateFormFileReader :: "string \<Rightarrow> source \<Rightarrow> string \<Rightarrow> 's step"
  fbCreateFormFileReaderWithMimeType :: "string \<Rightarrow> reader \<Rightarrow> string \<Rightarrow> string \<Rightarrow> 's step"
  fbWriteField :: "string \<Rightarrow> string \<Rightarrow> 's step"
  fbClose :: "'s step"
  fbFormDataContentType :: "'s \<Rightarrow> string"
  fbBody :: "'s \<Rightarrow> string"

definition DefaultFormBuilder :: "Writer FormBuilder" where
  "DefaultFormBuilder =
     \<lparr> fbCreateFormFile = CreateFormFile,
       fbCreateFormFileReader = CreateFormFileReader,
       fbCreateFormFileReaderWithMimeType = CreateFormFileReaderWithMimeType,
       fbWriteField = WriteField,
       fbClose = Close,
       fbFormDataContentType = FormDataContentType,
       fbBody = bodyBytes \<rparr>"

section \<open>image.go\<close>

text \<open>
  The two request structures. Every field of \<^verbatim>\<open>ImageVariRequest\<close> is also a field of
  \<^verbatim>\<open>ImageEditRequest\<close>, so the second record extends the first. \<^verbatim>\<open>N\<close> is a Go
  \<^verbatim>\<open>int\<close> (64 bits); \<^verbatim>\<open>Mask\<close> may be nil.
\<close>

record ImageVariRequest =
  Image :: source
  Model :: string
  N :: "64 word"
  Size :: string
  ResponseFormat :: string
  User :: string

record ImageEditRequest = ImageVariRequest +
  Mask :: "source option"
  Prompt :: string
  Quality :: string

definition CreateImageModelGptImage1 :: string where
  "CreateImageModelGptImage1 = ''gpt-image-1''"

text \<open>
  The methods of \<^verbatim>\<open>Client\<close> that the two functions call are defined in another file of
  the package; they are parameters here. \<open>fullURL suffix model\<close> is
  \<^verbatim>\<open>c.fullURL(suffix, withModel(model))\<close>, with \<open>None\<close> when no option is passed.
  What a call of the functions does to the network is recorded as the list of the calls
  made to \<^verbatim>\<open>newRequest\<close> and \<^verbatim>\<open>sendRequest\<close>. The \<^verbatim>\<open>fmt.Printf\<close> debugging output of
  \<^verbatim>\<open>CreateEditImage\<close> is not modelled.
\<close>

record ('q, 'a) Client =
  fullURL :: "string \<Rightarrow> string option \<Rightarrow> string"
  newRequest :: "string \<Rightarrow> string \<Rightarrow> string \<Rightarrow> string \<Rightarrow> error + 'q"
  sendRequest :: "'q \<Rightarrow> error + 'a"

datatype 'q httpCall = NewRequest string string string string | SendRequest 'q

type_synonym ('s, 'q, 'a) outcome = "(error + 'a) \<times> 's \<times> 'q httpCall list"

text \<open>
  \<^verbatim>\<open>err = op; if err != nil { return }\<close> followed by the rest of the function: the result
  is the error, the builder as the failed operation left it, and no call to the network.
\<close>

definition orReturn :: "'s step \<Rightarrow> ('s \<Rightarrow> ('s, 'q, 'a) outcome) \<Rightarrow> 's \<Rightarrow> ('s, 'q, 'a) outcome" where
  "orReturn operation rest s =
     (case operation s of
        (Some err, s') \<Rightarrow> (Inl err, s', [])
      | (None, s') \<Rightarrow> rest s')"

definition skip :: "'s step" where
  "skip s = (None, s)"

text \<open>
  The end of both functions: \<^verbatim>\<open>c.newRequest(ctx, http.MethodPost, url, withBody(body),
  withContentType(builder.FormDataContentType()))\<close>, then \<^verbatim>\<open>c.sendRequest(req, &response)\<close>.
\<close>

definition postForm ::
  "('q, 'a) Client \<Rightarrow> 's FormBuilder \<Rightarrow> string \<Rightarrow> 's \<Rightarrow> ('s, 'q, 'a) outcome" where
  "postForm c builder url s =
     (let b = fbBody builder s;
          contentType = fbFormDataContentType builder s
      in case newRequest c ''POST'' url b contentType of
           Inl err \<Rightarrow> (Inl err, s, [NewRequest ''POST'' url b contentType])
         | Inr req \<Rightarrow>
             (sendRequest c req, s, [NewRequest ''POST'' url b contentType, SendRequest req]))"

text \<open>
  \<open>s\<close> is the builder \<^verbatim>\<open>c.createFormBuilder(body)\<close> returns over the empty buffer.
\<close>

definition CreateVariImage ::
  "('q, 'a) Client \<Rightarrow> 's FormBuilder \<Rightarrow> 'r ImageVariRequest_scheme \<Rightarrow> 's \<Rightarrow> ('s, 'q, 'a) outcome" where
  "CreateVariImage c builder request =
     orReturn (fbCreateFormFileReader builder ''image'' (Image request) [])
    (orReturn (fbWriteField builder ''n'' (Itoa (sint (N request))))
    (orReturn (fbWriteField builder ''size'' (Size request))
    (orReturn (fbWriteField builder ''response_format'' (ResponseFormat request))
    (orReturn (fbClose builder)
    (postForm c builder (fullURL c ''/images/variations'' (Some (Model request))))))))"

text \<open>
  The debugging block of \<^verbatim>\<open>CreateEditImage\<close> for an image that is an \<^verbatim>\<open>*os.File\<close> seeks
  to the start, reads 16 bytes and seeks to the start again; the block for the mask seeks
  to the start. Both leave the file at offset 0; other readers are not touched.
\<close>

fun rewind :: "source \<Rightarrow> source" where
  "rewind (OsFile f) = OsFile (seekStart f)"
| "rewind r = r"

definition CreateEditImage ::
  "('q, 'a) Client \<Rightarrow> 's FormBuilder \<Rightarrow> ImageEditRequest \<Rightarrow> 's \<Rightarrow> ('s, 'q, 'a) outcome" where
  "CreateEditImage c builder request =
     orReturn (fbCreateFormFileReader builder ''image'' (rewind (Image request)) [])
    (orReturn (case Mask request of
                 Some maskReader \<Rightarrow> fbCreateFormFileReader builder ''mask'' (rewind maskReader) []
               | None \<Rightarrow> skip)
    (orReturn (fbWriteField builder ''prompt'' (Prompt request))
    (orReturn (if Model request \<noteq> [] then fbWriteField builder ''model'' (Model request) else skip)
    (orReturn (fbWriteField builder ''n'' (Itoa (sint (N request))))
    (orReturn (fbWriteField builder ''size'' (Size request))
    (orReturn (if ResponseFormat request \<noteq> [] \<and> Model request \<noteq> CreateImageModelGptImage1
               then fbWriteField builder ''response_format'' (ResponseFormat request) else skip)
    (orReturn (if Quality request \<noteq> [] \<and> Model request \<noteq> CreateImageModelGptImage1
               then fbWriteField builder ''quality'' (Quality request) else skip)
    (orReturn (if User request \<noteq> [] then fbWriteField builder ''user'' (User request) else skip)
    (orReturn (fbClose builder)
    (postForm c builder (fullURL c ''/images/edits'' None)))))))))))"

section \<open>Reading the functions as sequences of builder calls\<close>

text \<open>
  Both functions are a straight line of builder calls, each followed by the same early
  return. \<open>variCalls\<close> and \<open>editCalls\<close> list the calls a request leads to when none fails;
  \<open>runCalls\<close> performs a list of calls up to the first error. The lemmas
  \<open>CreateVariImage_runCalls\<close> and \<open>CreateEditImage_runCalls\<close> below show that the functions
  are exactly that.
\<close>

datatype call = FileCall string source string | FieldCall string string | CloseCall

fun perform :: "'s FormBuilder \<Rightarrow> call \<Rightarrow> 's step" where
  "perform builder (FileCall fieldname r filename) = fbCreateFormFileReader builder fieldname r filename"
| "perform builder (FieldCall fieldname val) = fbWriteField builder fieldname val"
| "perform builder CloseCall = fbClose builder"

fun runCalls :: "'s FormBuilder \<Rightarrow> call list \<Rightarrow> 's step" where
  "runCalls builder [] s = (None, s)"
| "runCalls builder (x # xs) s =
     (case perform builder x s of
        (Some err, s') \<Rightarrow> (Some err, s')
      | (None, s') \<Rightarrow> runCalls builder xs s')"

definition variCalls :: "'r ImageVariRequest_scheme \<Rightarrow> call list" where
  "variCalls request =
     [FileCall ''image'' (Image request) [],
      FieldCall ''n'' (Itoa (sint (N request))),
      FieldCall ''size'' (Size request),
      FieldCall ''response_format'' (ResponseFormat request),
      CloseCall]"

definition editCalls :: "ImageEditRequest \<Rightarrow> call list" where
  "editCalls request =
     [FileCall ''image'' (rewind (Image request)) []]
     @ (case Mask request of Some maskReader \<Rightarrow> [FileCall ''mask'' (rewind maskReader) []] | None \<Rightarrow> [])
     @ [FieldCall ''prompt'' (Prompt request)]
     @ (if Model request \<noteq> [] then [FieldCall ''model'' (Model request)] else [])
     @ [FieldCall ''n'' (Itoa (sint (N request))), FieldCall ''size'' (Size request)]
     @ (if ResponseFormat request \<noteq> [] \<and> Model request \<noteq> CreateImageModelGptImage1
        then [FieldCall ''response_format'' (ResponseFormat request)] else [])
     @ (if Quality request \<noteq> [] \<and> Model request \<noteq> CreateImageModelGptImage1
        then [FieldCall ''quality'' (Quality request)] else [])
     @ (if User request \<noteq> [] then [FieldCall ''user'' (User request)] else [])
     @ [CloseCall]"

section \<open>The receiving side: reading a Content-Disposition value back\<close>

text \<open>
  \<open>unquote\<close> reads a quoted string after its opening quote, as RFC 822 defines it: a
  backslash makes the next byte literal, an unescaped quote ends the string. It returns the
  value and what follows the closing quote. \<open>parseDisposition\<close> reads the two forms of
  value the builder writes and returns the name and, when there is one, the file name.
  Both work on the header value as the writer holds it, whatever bytes it has; the theorems
  use them to tell which part of a form is which. What a receiver reads from the bytes on the
  wire is the subject of the next section.
\<close>

fun unquote :: "string \<Rightarrow> (string \<times> string) option" where
  "unquote [] = None"
| "unquote (c # s) =
     (if c = dquote then Some ([], s)
      else if c = backslash then
        (case s of
           [] \<Rightarrow> None
         | c' # s' \<Rightarrow> map_option (\<lambda>(v, r). (c' # v, r)) (unquote s'))
      else map_option (\<lambda>(v, r). (c # v, r)) (unquote s))"

definition stripPrefix :: "string \<Rightarrow> string \<Rightarrow> string option" where
  "stripPrefix p s = (if take (length p) s = p then Some (drop (length p) s) else None)"

definition parseDisposition :: "string \<Rightarrow> (string \<times> string option) option" where
  "parseDisposition v =
     (case stripPrefix (''form-data; name='' @ [dquote]) v of
        None \<Rightarrow> None
      | Some s1 \<Rightarrow>
          (case unquote s1 of
             None \<Rightarrow> None
           | Some (name, s2) \<Rightarrow>
               if s2 = [] then Some (name, None)
               else (case stripPrefix (''; filename='' @ [dquote]) s2 of
                       None \<Rightarrow> None
                     | Some s3 \<Rightarrow>
                         (case unquote s3 of
                            None \<Rightarrow> None
                          | Some (filename, s4) \<Rightarrow>
                              if s4 = [] then Some (name, Some filename) else None))))"

text \<open>The Content-Disposition value of a part, and the name and file name a receiver reads.\<close>

definition contentDisposition :: "part \<Rightarrow> string" where
  "contentDisposition p =
     (case map_of (header p) ''Content-Disposition'' of Some v \<Rightarrow> v | None \<Rightarrow> [])"

definition partName :: "part \<Rightarrow> string option" where
  "partName p = map_option fst (parseDisposition (contentDisposition p))"

definition partFilename :: "part \<Rightarrow> string option" where
  "partFilename p =
     (case parseDisposition (contentDisposition p) of
        Some (name, Some filename) \<Rightarrow> Some filename
      | _ \<Rightarrow> None)"

section \<open>The receiving side: reading the header of a part from its bytes\<close>




definition headerBlock :: "part \<Rightarrow> string" where
  "headerBlock p = concat (map headerLine (header p)) @ CRLF"

subsection \<open>net/textproto.Reader.ReadMIMEHeader\<close>














subsection \<open>mime.ParseMediaType on a Content-Disposition value\<close>





section \<open>Notions used in the statements\<close>

text \<open>
  The definitions of this section are not part of the program; the theorems use them to say
  what a reader holds, what a part is, and which file name the builder settles on.

  \<open>drain r\<close> is what reading \<open>r\<close> to its end yields: the bytes up to the first error, and
  that error unless it is \<^verbatim>\<open>io.EOF\<close>. \<open>stickyEOF r\<close> says that \<open>r\<close> keeps to the contract
  of \<^verbatim>\<open>io.Reader\<close> at the end of its stream: after a call that returned \<^verbatim>\<open>io.EOF\<close>, the next
  call returns \<^verbatim>\<open>(0, io.EOF)\<close> again. Files and string readers always do.
\<close>

fun drainScript :: "chunk list \<Rightarrow> string \<times> error option" where
  "drainScript [] = ([], None)"
| "drainScript ((d, None) # script) = (case drainScript script of (ds, err) \<Rightarrow> (d @ ds, err))"
| "drainScript ((d, Some e) # script) = (d, if e = EOF then None else Some e)"

fun drain :: "source \<Rightarrow> string \<times> error option" where
  "drain (Stream name script) = drainScript script"
| "drain (OsFile (File name contents offset)) = (drop offset contents, None)"
| "drain (StringsReader s) = (s, None)"

fun stickyScript :: "chunk list \<Rightarrow> bool" where
  "stickyScript [] = True"
| "stickyScript ((d, e) # script) = (if e = Some EOF then script = [] else stickyScript script)"

fun stickyEOF :: "source \<Rightarrow> bool" where
  "stickyEOF (Stream name script) = stickyScript script"
| "stickyEOF r = True"

text \<open>The part \<^verbatim>\<open>WriteField\<close> appends, and the part the two file operations of this file append.\<close>

definition fieldPart :: "string \<Rightarrow> string \<Rightarrow> part" where
  "fieldPart fieldname val =
     \<lparr>header = [(''Content-Disposition'', fieldDisposition fieldname)], body = val\<rparr>"

definition filePart :: "string \<Rightarrow> string \<Rightarrow> string \<Rightarrow> string \<Rightarrow> part" where
  "filePart fieldname filename mimeType content =
     \<lparr>header = [(''Content-Disposition'', fileDisposition fieldname (Base filename))]
                @ (if mimeType \<noteq> [] then [(''Content-Type'', mimeType)] else []),
      body = content\<rparr>"

text \<open>
  The file name \<^verbatim>\<open>CreateFormFileReaderWithMimeType\<close> has settled on before it takes the base
  name: its first two statements, as one function of the reader, the file name passed in and
  the type.
\<close>

definition effectiveFilename :: "reader \<Rightarrow> string \<Rightarrow> string \<Rightarrow> string" where
  "effectiveFilename r filename0 mimeType =
     (let filename1 =
            (case readerName r of
               Some n \<Rightarrow> if filename0 = [] then n else filename0
             | None \<Rightarrow> filename0)
      in if filename1 = [] then
               (if mimeType = ''image/png'' then ''image.png''
                else if mimeType = ''image/jpeg'' \<or> mimeType = ''image/jpg'' then ''image.jpg''
                else if mimeType = ''image/gif'' then ''image.gif''
                else if mimeType = ''image/webp'' then ''image.webp''
                else if mimeType = ''image/bmp'' then ''image.bmp''
                else if mimeType = ''image/tiff'' then ''image.tiff''
                else ''file.bin'')
             else filename1)"

text \<open>The field name a builder call carries.\<close>

fun callNames :: "call \<Rightarrow> string list" where
  "callNames (FileCall fieldname r filename) = [fieldname]"
| "callNames (FieldCall fieldname val) = [fieldname]"
| "callNames CloseCall = []"

text \<open>Performing a list of calls with the early return of \<open>orReturn\<close>, then the rest.\<close>

definition thenDo ::
  "'s FormBuilder \<Rightarrow> call list \<Rightarrow> ('s \<Rightarrow> ('s, 'q, 'a) outcome) \<Rightarrow> 's \<Rightarrow> ('s, 'q, 'a) outcome" where
  "thenDo builder xs rest s =
     (case runCalls builder xs s of
        (Some err, s') \<Rightarrow> (Inl err, s', [])
      | (None, s') \<Rightarrow> rest s')"

text \<open>
  The table of default file names as the specification gives it: a static map from content
  type to file name, and \<^verbatim>\<open>file.bin\<close> for every type it does not list.
\<close>

definition specDefaultFilename :: "string \<Rightarrow> string" where
  "specDefaultFilename mimeType =
     (case map_of [(''image/png'', ''image.png''), (''image/jpeg'', ''image.jpg''),
                   (''image/jpg'', ''image.jpg''), (''image/gif'', ''image.gif''),
                   (''image/webp'', ''image.webp''), (''image/bmp'', ''image.bmp''),
                   (''image/tiff'', ''image.tiff'')] mimeType of
        Some name \<Rightarrow> name
      | None \<Rightarrow> ''file.bin'')"

text \<open>
  What a receiver reads from the parts of a form: the name and the content of each, in
  order.
\<close>

definition partsRead :: "Writer \<Rightarrow> (string option \<times> string) list" where
  "partsRead w = map (\<lambda>p. (partName p, body p)) (parts w)"



section \<open>Concrete inputs for the examples\<close>

text \<open>
  A client that accepts every request, a builder (as a test double would be) whose
  \<^verbatim>\<open>WriteField\<close> rejects the field \<^verbatim>\<open>size\<close> and which records the names of the parts it
  took, and an edit request.
\<close>

definition exampleClient :: "(unit, unit) Client" where
  "exampleClient =
     \<lparr>fullURL = (\<lambda>suffix model. ''https://api.openai.com/v1'' @ suffix),
      newRequest = (\<lambda>method url b contentType. Inr ()),
      sendRequest = (\<lambda>req. Inr ())\<rparr>"

definition sizeRejectingBuilder :: "(string list) FormBuilder" where
  "sizeRejectingBuilder =
     \<lparr>fbCreateFormFile = (\<lambda>fieldname f s. (None, s @ [fieldname])),
      fbCreateFormFileReader = (\<lambda>fieldname r filename s. (None, s @ [fieldname])),
      fbCreateFormFileReaderWithMimeType = (\<lambda>fieldname r filename mimeType s. (None, s @ [fieldname])),
      fbWriteField = (\<lambda>fieldname val s.
         if fieldname = ''size'' then (Some (Failure ''write failed''), s)
         else (None, s @ [fieldname])),
      fbClose = (\<lambda>s. (None, s)),
      fbFormDataContentType = (\<lambda>s. ''multipart/form-data; boundary=x''),
      fbBody = concat\<rparr>"

definition exampleEdit :: ImageEditRequest where
  "exampleEdit =
     \<lparr>Image = Stream None [(''GIF89a'', Some EOF)], Model = ''dall-e-2'', N = 1,
      Size = ''256x256'', ResponseFormat = ''url'', User = [],
      Mask = None, Prompt = ''a cat'', Quality = ''standard''\<rparr>"


text \<open>A variation request in which every optional value is absent.\<close>

definition emptyVari :: ImageVariRequest where
  "emptyVari =
     \<lparr>Image = Stream None [(''GIF89a'', Some EOF)], Model = [], N = 0,
      Size = [], ResponseFormat = [], User = []\<rparr>"


section \<open>Lemmas about the library model\<close>

lemma take_drop_length_take: "take k xs @ drop (length (take k xs)) xs = xs"
  by (cases "k \<le> length xs") (simp_all add: min_def)

lemma ReadSource_drain:
  "0 < k \<Longrightarrow> ReadSource k r = ((d, e), r') \<Longrightarrow>
   drain r = (case e of None \<Rightarrow> (d @ fst (drain r'), snd (drain r'))
              | Some x \<Rightarrow> (d, if x = EOF then None else Some x))"
proof (induction k r rule: ReadSource.induct)
  case (1 k name)
  then show ?case by auto
next
  case (2 k name d0 e0 script)
  then show ?case
    by (cases e0) (auto split: if_splits prod.splits)
next
  case (3 k name contents offset)
  then show ?case
  proof -
    let ?rest = "drop offset contents"
    have "drop (offset + length (take k ?rest)) contents = drop (length (take k ?rest)) ?rest"
      by (simp add: add.commute)
    then have "take k ?rest @ drop (offset + length (take k ?rest)) contents = ?rest"
      using take_drop_length_take [of k ?rest] by simp
    with 3 show ?thesis
      by (auto simp: Let_def split: if_splits)
  qed
next
  case (4 k s)
  then show ?case by (auto split: if_splits)
qed

lemma copyBufferSize_pos: "0 < copyBufferSize"
  by (simp add: copyBufferSize_def)

lemma Copy_Plain: "Copy (Plain r) = drain r"
proof (induction r rule: measure_induct_rule [where f = sourceSize])
  case (less r)
  obtain d e r' where rd: "ReadSource copyBufferSize r = ((d, e), r')"
    by (metis prod.exhaust)
  show ?case
  proof (cases e)
    case None
    with rd have "sourceSize r' < sourceSize r"
      using ReadSource_progress [OF copyBufferSize_pos] by blast
    then have "Copy (Plain r') = drain r'"
      using less by blast
    moreover have "Copy (Plain r) = (d @ fst (Copy (Plain r')), snd (Copy (Plain r')))"
      using rd None by (subst Copy.simps) (simp split: prod.splits)
    moreover have "drain r = (d @ fst (drain r'), snd (drain r'))"
      using ReadSource_drain [OF copyBufferSize_pos rd] None by simp
    ultimately show ?thesis by simp
  next
    case (Some x)
    have "Copy (Plain r) = (d, if x = EOF then None else Some x)"
      using rd Some by (subst Copy.simps) simp
    moreover have "drain r = (d, if x = EOF then None else Some x)"
      using ReadSource_drain [OF copyBufferSize_pos rd] Some by simp
    ultimately show ?thesis by simp
  qed
qed

lemma Copy_MultiReader_single: "Copy (MultiReader [r]) = drain r"
proof (induction r rule: measure_induct_rule [where f = sourceSize])
  case (less r)
  obtain d e r' where rd: "ReadSource copyBufferSize r = ((d, e), r')"
    by (metis prod.exhaust)
  show ?case
  proof (cases e)
    case None
    with rd have "sourceSize r' < sourceSize r"
      using ReadSource_progress [OF copyBufferSize_pos] by blast
    then have "Copy (MultiReader [r']) = drain r'"
      using less by blast
    moreover have "Copy (MultiReader [r]) =
        (d @ fst (Copy (MultiReader [r'])), snd (Copy (MultiReader [r'])))"
      using rd None by (subst Copy.simps) (simp split: prod.splits)
    moreover have "drain r = (d @ fst (drain r'), snd (drain r'))"
      using ReadSource_drain [OF copyBufferSize_pos rd] None by simp
    ultimately show ?thesis by simp
  next
    case (Some x)
    have "Copy (MultiReader [r]) = (d, if x = EOF then None else Some x)"
      using rd Some by (subst Copy.simps) simp
    moreover have "drain r = (d, if x = EOF then None else Some x)"
      using ReadSource_drain [OF copyBufferSize_pos rd] Some by simp
    ultimately show ?thesis by simp
  qed
qed

lemma Copy_MultiReader_StringsReader:
  "Copy (MultiReader (StringsReader s # readers)) =
     (s @ fst (Copy (MultiReader readers)), snd (Copy (MultiReader readers)))"
proof (induction s rule: length_induct)
  case (1 s)
  show ?case
  proof (cases "s = []")
    case True
    have "Read copyBufferSize (MultiReader (StringsReader [] # readers)) =
          Read copyBufferSize (MultiReader readers)"
      by simp
    then have "Copy (MultiReader (StringsReader [] # readers)) = Copy (MultiReader readers)"
      by (subst Copy.simps, subst (2) Copy.simps) simp
    with True show ?thesis by simp
  next
    case False
    let ?k = copyBufferSize
    have short: "length (drop ?k s) < length s"
      using False copyBufferSize_pos by simp
    have "Copy (MultiReader (StringsReader s # readers)) =
          (take ?k s @ fst (Copy (MultiReader (StringsReader (drop ?k s) # readers))),
           snd (Copy (MultiReader (StringsReader (drop ?k s) # readers))))"
      using False by (subst Copy.simps) (simp split: prod.splits)
    also have "\<dots> = (take ?k s @ drop ?k s @ fst (Copy (MultiReader readers)),
                     snd (Copy (MultiReader readers)))"
      using 1 short by simp
    finally show ?thesis by simp
  qed
qed

lemma Copy_sniffed:
  "Copy (MultiReader [StringsReader buffer, r]) = (buffer @ fst (drain r), snd (drain r))"
  by (simp add: Copy_MultiReader_StringsReader Copy_MultiReader_single)

lemma stickyEOF_after_EOF:
  "stickyEOF r \<Longrightarrow> ReadSource k r = ((d, Some EOF), r') \<Longrightarrow> drain r' = ([], None)"
proof (induction k r rule: ReadSource.induct)
  case (1 k name)
  then show ?case by auto
next
  case (2 k name d0 e0 script)
  then show ?case by (auto split: if_splits)
next
  case (3 k name contents offset)
  then show ?case by (auto simp: Let_def split: if_splits)
next
  case (4 k s)
  then show ?case by (auto split: if_splits)
qed

lemma ReadSource_length: "ReadSource k r = ((d, e), r') \<Longrightarrow> length d \<le> k"
proof (induction k r rule: ReadSource.induct)
  case (1 k name)
  then show ?case by auto
next
  case (2 k name d0 e0 script)
  then show ?case by (auto split: if_splits)
next
  case (3 k name contents offset)
  then show ?case by (auto simp: Let_def split: if_splits)
next
  case (4 k s)
  then show ?case by (auto split: if_splits)
qed

lemma unquote_escapeQuotes: "unquote (escapeQuotes s @ dquote # rest) = Some (s, rest)"
proof (induction s)
  case Nil
  then show ?case by simp
next
  case (Cons c s)
  show ?case
  proof (cases "c = backslash \<or> c = dquote")
    case True
    with Cons show ?thesis
      by (auto simp: dquote_def backslash_def)
  next
    case False
    with Cons show ?thesis by simp
  qed
qed

lemma stripPrefix_append: "stripPrefix p (p @ s) = Some s"
  by (simp add: stripPrefix_def)

lemma parseDisposition_field: "parseDisposition (fieldDisposition fieldname) = Some (fieldname, None)"
proof -
  have "fieldDisposition fieldname =
        (''form-data; name='' @ [dquote]) @ (escapeQuotes fieldname @ dquote # [])"
    by (simp add: fieldDisposition_def)
  then show ?thesis
    unfolding parseDisposition_def
    by (simp only: stripPrefix_append unquote_escapeQuotes option.case prod.case) simp
qed

lemma parseDisposition_file:
  "parseDisposition (fileDisposition fieldname filename) = Some (fieldname, Some filename)"
proof -
  let ?tail = "(''; filename='' @ [dquote]) @ (escapeQuotes filename @ dquote # [])"
  have "fileDisposition fieldname filename =
        (''form-data; name='' @ [dquote]) @ (escapeQuotes fieldname @ dquote # ?tail)"
    by (simp add: fileDisposition_def)
  moreover have "?tail \<noteq> []" by simp
  ultimately show ?thesis
    unfolding parseDisposition_def
    by (simp only: stripPrefix_append unquote_escapeQuotes option.case prod.case if_False) simp
qed

lemma parts_writeLastPart_CreatePart:
  "parts (writeLastPart dat (CreatePart h w)) = parts w @ [\<lparr>header = h, body = dat\<rparr>]"
  by (simp add: writeLastPart_def CreatePart_def)

lemma partName_fieldPart: "partName (fieldPart fieldname val) = Some fieldname"
  by (simp add: partName_def contentDisposition_def fieldPart_def parseDisposition_field)

lemma copy_into_part:
  "(case Copy r of
      (written, Some err) \<Rightarrow> (Some err, writeLastPart written (CreatePart h w))
    | (written, None) \<Rightarrow> (None, writeLastPart written (CreatePart h w))) =
   (snd (Copy r), w\<lparr>parts := parts w @ [\<lparr>header = h, body = fst (Copy r)\<rparr>]\<rparr>)"
proof -
  obtain written err where c: "Copy r = (written, err)"
    by (metis prod.exhaust)
  show ?thesis
    unfolding c by (cases err) (simp_all add: writeLastPart_def CreatePart_def)
qed

lemma CreateFormFileReaderWithMimeType_eq:
  "CreateFormFileReaderWithMimeType fieldname r filename mimeType w =
     (snd (Copy r),
      w\<lparr>parts := parts w @
         [filePart fieldname (effectiveFilename r filename mimeType) mimeType (fst (Copy r))]\<rparr>)"
  by (simp only: CreateFormFileReaderWithMimeType_def effectiveFilename_def filePart_def
      Let_def copy_into_part)

lemma contentDisposition_filePart:
  "contentDisposition (filePart fieldname filename mimeType content) =
     fileDisposition fieldname (Base filename)"
  by (simp add: contentDisposition_def filePart_def)

lemma partName_filePart: "partName (filePart fieldname filename mimeType content) = Some fieldname"
  by (simp add: partName_def contentDisposition_filePart parseDisposition_file)

lemma partFilename_filePart:
  "partFilename (filePart fieldname filename mimeType content) = Some (Base filename)"
  by (simp add: partFilename_def contentDisposition_filePart parseDisposition_file)

lemma thenDo_Nil: "thenDo builder [] rest = rest"
  by (rule ext) (simp add: thenDo_def)

lemma orReturn_perform:
  "orReturn (perform builder x) (thenDo builder xs rest) = thenDo builder (x # xs) rest"
  by (rule ext) (simp add: thenDo_def orReturn_def split: prod.splits option.splits)

lemma orReturn_skip: "orReturn skip rest = rest"
  by (rule ext) (simp add: orReturn_def skip_def)

lemma thenDo_append:
  "thenDo builder (xs @ ys) rest = thenDo builder xs (thenDo builder ys rest)"
proof (rule ext)
  fix s
  show "thenDo builder (xs @ ys) rest s = thenDo builder xs (thenDo builder ys rest) s"
  proof (induction xs arbitrary: s)
    case Nil
    then show ?case by (simp add: thenDo_def)
  next
    case (Cons x xs)
    show ?case
    proof (cases "perform builder x s")
      case (Pair err s')
      with Cons [of s'] show ?thesis
        by (cases err) (simp_all add: thenDo_def)
    qed
  qed
qed

lemma CreateVariImage_runCalls:
  "CreateVariImage c builder request =
     thenDo builder (variCalls request)
       (postForm c builder (fullURL c ''/images/variations'' (Some (Model request))))"
proof -
  have "CreateVariImage c builder request =
      orReturn (perform builder (FileCall ''image'' (Image request) []))
     (orReturn (perform builder (FieldCall ''n'' (Itoa (sint (N request)))))
     (orReturn (perform builder (FieldCall ''size'' (Size request)))
     (orReturn (perform builder (FieldCall ''response_format'' (ResponseFormat request)))
     (orReturn (perform builder CloseCall)
     (thenDo builder []
       (postForm c builder (fullURL c ''/images/variations'' (Some (Model request)))))))))"
    by (simp add: CreateVariImage_def thenDo_Nil)
  then show ?thesis
    by (simp only: orReturn_perform variCalls_def)
qed

lemma CreateEditImage_runCalls:
  "CreateEditImage c builder request =
     thenDo builder (editCalls request) (postForm c builder (fullURL c ''/images/edits'' None))"
proof -
  let ?post = "postForm c builder (fullURL c ''/images/edits'' None)"
  let ?mask = "case Mask request of
                 Some maskReader \<Rightarrow> [FileCall ''mask'' (rewind maskReader) []] | None \<Rightarrow> []"
  let ?model = "if Model request \<noteq> [] then [FieldCall ''model'' (Model request)] else []"
  let ?format = "if ResponseFormat request \<noteq> [] \<and> Model request \<noteq> CreateImageModelGptImage1
        then [FieldCall ''response_format'' (ResponseFormat request)] else []"
  let ?quality = "if Quality request \<noteq> [] \<and> Model request \<noteq> CreateImageModelGptImage1
        then [FieldCall ''quality'' (Quality request)] else []"
  let ?user = "if User request \<noteq> [] then [FieldCall ''user'' (User request)] else []"
  have opt: "\<And>b x rest. orReturn (if b then perform builder x else skip) rest
      = thenDo builder (if b then [x] else []) rest"
    by (simp add: orReturn_skip thenDo_Nil flip: orReturn_perform)
  have mask: "\<And>rest. orReturn (case Mask request of
                 Some maskReader \<Rightarrow> fbCreateFormFileReader builder ''mask'' (rewind maskReader) []
               | None \<Rightarrow> skip) rest = thenDo builder ?mask rest"
    by (cases "Mask request") (simp_all add: orReturn_skip thenDo_Nil flip: orReturn_perform)
  have one: "\<And>x rest. orReturn (perform builder x) rest = thenDo builder [x] rest"
    by (simp add: thenDo_Nil flip: orReturn_perform)
  have "CreateEditImage c builder request =
      orReturn (perform builder (FileCall ''image'' (rewind (Image request)) []))
     (orReturn (case Mask request of
                 Some maskReader \<Rightarrow> fbCreateFormFileReader builder ''mask'' (rewind maskReader) []
               | None \<Rightarrow> skip)
     (orReturn (perform builder (FieldCall ''prompt'' (Prompt request)))
     (orReturn (if Model request \<noteq> [] then perform builder (FieldCall ''model'' (Model request)) else skip)
     (orReturn (perform builder (FieldCall ''n'' (Itoa (sint (N request)))))
     (orReturn (perform builder (FieldCall ''size'' (Size request)))
     (orReturn (if ResponseFormat request \<noteq> [] \<and> Model request \<noteq> CreateImageModelGptImage1
                then perform builder (FieldCall ''response_format'' (ResponseFormat request)) else skip)
     (orReturn (if Quality request \<noteq> [] \<and> Model request \<noteq> CreateImageModelGptImage1
                then perform builder (FieldCall ''quality'' (Quality request)) else skip)
     (orReturn (if User request \<noteq> [] then perform builder (FieldCall ''user'' (User request)) else skip)
     (orReturn (perform builder CloseCall) ?post)))))))))"
    by (simp only: CreateEditImage_def perform.simps)
  also have "\<dots> =
      thenDo builder [FileCall ''image'' (rewind (Image request)) []]
     (thenDo builder ?mask
     (thenDo builder [FieldCall ''prompt'' (Prompt request)]
     (thenDo builder ?model
     (thenDo builder [FieldCall ''n'' (Itoa (sint (N request)))]
     (thenDo builder [FieldCall ''size'' (Size request)]
     (thenDo builder ?format
     (thenDo builder ?quality
     (thenDo builder ?user
     (thenDo builder [CloseCall] ?post)))))))))"
    by (simp only: opt mask one)
  also have "\<dots> =
      thenDo builder
        ([FileCall ''image'' (rewind (Image request)) []] @ ?mask
          @ [FieldCall ''prompt'' (Prompt request)] @ ?model
          @ [FieldCall ''n'' (Itoa (sint (N request)))] @ [FieldCall ''size'' (Size request)]
          @ ?format @ ?quality @ ?user @ [CloseCall]) ?post"
    by (simp only: thenDo_append)
  also have "\<dots> = thenDo builder (editCalls request) ?post"
    by (simp add: editCalls_def)
  finally show ?thesis .
qed

lemma WriteField_eq: "WriteField fieldname val w = (None, w\<lparr>parts := parts w @ [fieldPart fieldname val]\<rparr>)"
  by (simp add: WriteField_def multipartWriteField_def multipartCreateFormField_def
      writeLastPart_def CreatePart_def fieldPart_def)

lemma CreateFormFileReader_cases:
  "CreateFormFileReader fieldname r filename w = (err, w') \<Longrightarrow>
   (err \<noteq> None \<and> w' = w) \<or> (\<exists>p. parts w' = parts w @ [p] \<and> partName p = Some fieldname)"
  unfolding CreateFormFileReader_def CreateFormFileReaderWithMimeType_eq
  by (auto split: sum.splits simp: partName_filePart)

lemma perform_Default_cases:
  assumes "perform DefaultFormBuilder x w = (err, w')"
  shows "(parts w' = parts w \<and> (\<forall>fieldname val. x = FieldCall fieldname val \<longrightarrow> err \<noteq> None)) \<or>
         (\<exists>p. parts w' = parts w @ [p] \<and> partName p \<in> Some ` set (callNames x) \<and>
              (\<forall>fieldname val. x = FieldCall fieldname val \<longrightarrow> p = fieldPart fieldname val))"
proof (cases x)
  case (FileCall n r f)
  with assms CreateFormFileReader_cases [of n r f w err w'] show ?thesis
    by (auto simp: DefaultFormBuilder_def)
next
  case (FieldCall n v)
  with assms show ?thesis
    by (auto simp: DefaultFormBuilder_def WriteField_eq partName_fieldPart)
next
  case CloseCall
  with assms show ?thesis
    by (auto simp: DefaultFormBuilder_def Close_def multipartClose_def)
qed

lemma perform_Default:
  assumes "perform DefaultFormBuilder x w = (err, w')"
  shows "set (parts w) \<subseteq> set (parts w')"
    and "p \<in> set (parts w') \<Longrightarrow> p \<in> set (parts w) \<or> partName p \<in> Some ` set (callNames x)"
    and "err = None \<Longrightarrow> x = FieldCall fieldname val \<Longrightarrow> fieldPart fieldname val \<in> set (parts w')"
  using perform_Default_cases [OF assms] by auto

lemma runCalls_Default_mono:
  "runCalls DefaultFormBuilder xs w = (err, w') \<Longrightarrow> set (parts w) \<subseteq> set (parts w')"
proof (induction xs arbitrary: w)
  case Nil
  then show ?case by simp
next
  case (Cons x xs)
  obtain e1 w1 where p: "perform DefaultFormBuilder x w = (e1, w1)"
    by (metis prod.exhaust)
  show ?case
  proof (cases e1)
    case None
    with Cons.prems p have "runCalls DefaultFormBuilder xs w1 = (err, w')" by simp
    with Cons.IH have "set (parts w1) \<subseteq> set (parts w')" by blast
    with perform_Default(1) [OF p] show ?thesis by blast
  next
    case (Some e)
    with Cons.prems p have "w' = w1" by simp
    with perform_Default(1) [OF p] show ?thesis by blast
  qed
qed

lemma runCalls_Default_names:
  "runCalls DefaultFormBuilder xs w = (err, w') \<Longrightarrow> p \<in> set (parts w') \<Longrightarrow>
   p \<in> set (parts w) \<or> partName p \<in> Some ` set (concat (map callNames xs))"
proof (induction xs arbitrary: w)
  case Nil
  then show ?case by simp
next
  case (Cons x xs)
  obtain e1 w1 where pf: "perform DefaultFormBuilder x w = (e1, w1)"
    by (metis prod.exhaust)
  have step: "p \<in> set (parts w1) \<Longrightarrow> p \<in> set (parts w) \<or> partName p \<in> Some ` set (callNames x)"
    using perform_Default(2) [OF pf] .
  show ?case
  proof (cases e1)
    case None
    with Cons.prems pf have "runCalls DefaultFormBuilder xs w1 = (err, w')" by simp
    from Cons.IH [OF this Cons.prems(2)]
    have "p \<in> set (parts w1) \<or> partName p \<in> Some ` set (concat (map callNames xs))" .
    with step show ?thesis by auto
  next
    case (Some e)
    with Cons.prems pf have "w' = w1" by simp
    with step Cons.prems(2) show ?thesis by auto
  qed
qed

lemma runCalls_Default_fields:
  "runCalls DefaultFormBuilder xs w = (None, w') \<Longrightarrow> FieldCall fieldname val \<in> set xs \<Longrightarrow>
   fieldPart fieldname val \<in> set (parts w')"
proof (induction xs arbitrary: w)
  case Nil
  then show ?case by simp
next
  case (Cons x xs)
  obtain e1 w1 where p: "perform DefaultFormBuilder x w = (e1, w1)"
    by (metis prod.exhaust)
  with Cons.prems(1) have e1: "e1 = None" and rest: "runCalls DefaultFormBuilder xs w1 = (None, w')"
    by (auto split: option.splits)
  show ?case
  proof (cases "x = FieldCall fieldname val")
    case True
    from perform_Default(3) [OF p e1 True] runCalls_Default_mono [OF rest]
    show ?thesis by blast
  next
    case False
    with Cons.prems(2) have "FieldCall fieldname val \<in> set xs" by simp
    from Cons.IH [OF rest this] show ?thesis .
  qed
qed

lemma postForm_calls: "postForm c builder url s = (result, s', calls) \<Longrightarrow> s' = s \<and> calls \<noteq> []"
  by (auto simp: postForm_def Let_def split: sum.splits)

lemma thenDo_cases:
  assumes "thenDo builder xs (postForm c builder url) s = (result, s', calls)"
  shows "(\<exists>err. runCalls builder xs s = (Some err, s') \<and> result = Inl err \<and> calls = []) \<or>
         (runCalls builder xs s = (None, s') \<and> calls \<noteq> [])"
proof (cases "runCalls builder xs s")
  case (Pair e s1)
  show ?thesis
  proof (cases e)
    case None
    with Pair assms postForm_calls [of c builder url s1 result s' calls] show ?thesis
      by (simp add: thenDo_def)
  next
    case (Some err)
    with Pair assms show ?thesis by (simp add: thenDo_def)
  qed
qed

lemma detectMimeType_eq:
  "ReadSource 512 r = ((buffer, err), r') \<Longrightarrow>
   detectMimeType r =
     (if err \<noteq> None \<and> err \<noteq> Some EOF then Inl (the err)
      else Inr (DetectContentType buffer, MultiReader [StringsReader buffer, r']))"
  by (simp add: detectMimeType_def Let_def)

lemma DetectContentType_empty: "DetectContentType [] = ''text/plain; charset=utf-8''"
  by code_simp

lemma firstMatch_none:
  "list_all (\<lambda>sg. sigMatch sg dat k = []) sigs \<Longrightarrow> firstMatch sigs dat k = ''application/octet-stream''"
  by (induction sigs) (simp_all add: Let_def)

lemma nomatch_binary:
  "list_all (\<lambda>sg. sigMatch sg [CHR 0x01, CHR 0x02, CHR 0x03] (length (takeWhile isWS [CHR 0x01, CHR 0x02, CHR 0x03])) = []) sniffSignatures"
  by code_simp


lemma DetectContentType_gif: "DetectContentType ''GIF89a'' = ''image/gif''"
  by code_simp

lemma DetectContentType_GIF8: "DetectContentType ''GIF8'' = ''text/plain; charset=utf-8''"
  by code_simp

lemma take_sniffLen_binary:
  "take sniffLen [CHR 0x01, CHR 0x02, CHR 0x03] = [CHR 0x01, CHR 0x02, CHR 0x03]"
  by (simp add: sniffLen_def)

lemma runCalls_fails_at:
  "i < length xs \<Longrightarrow> runCalls builder (take i xs) s = (None, s1) \<Longrightarrow>
   perform builder (xs ! i) s1 = (Some err, s2) \<Longrightarrow> runCalls builder xs s = (Some err, s2)"
proof (induction xs arbitrary: i s)
  case Nil
  then show ?case by simp
next
  case (Cons x xs)
  show ?case
  proof (cases i)
    case 0
    with Cons.prems show ?thesis by simp
  next
    case (Suc j)
    obtain e0 s0 where p: "perform builder x s = (e0, s0)"
      by (metis prod.exhaust)
    with Cons.prems(2) Suc have "e0 = None" and "runCalls builder (take j xs) s0 = (None, s1)"
      by (auto split: option.splits)
    moreover from Cons.prems Suc have "j < length xs" and "perform builder (xs ! j) s1 = (Some err, s2)"
      by simp_all
    ultimately have "runCalls builder xs s0 = (Some err, s2)"
      using Cons.IH by blast
    with p \<open>e0 = None\<close> show ?thesis by simp
  qed
qed

lemma editCalls_exampleEdit:
  "editCalls exampleEdit =
     [FileCall ''image'' (Stream None [(''GIF89a'', Some EOF)]) [],
      FieldCall ''prompt'' ''a cat'', FieldCall ''model'' ''dall-e-2'',
      FieldCall ''n'' (Itoa (sint (1 :: 64 word))), FieldCall ''size'' ''256x256'',
      FieldCall ''response_format'' ''url'', FieldCall ''quality'' ''standard'', CloseCall]"
  by (simp add: editCalls_def exampleEdit_def CreateImageModelGptImage1_def)

lemma if_same_branch: "(if a then x else if b then x else y) = (if a \<or> b then x else y)"
  by simp

lemma specDefaultFilename_chain:
  "specDefaultFilename mimeType =
     (if mimeType = ''image/png'' then ''image.png''
      else if mimeType = ''image/jpeg'' \<or> mimeType = ''image/jpg'' then ''image.jpg''
      else if mimeType = ''image/gif'' then ''image.gif''
      else if mimeType = ''image/webp'' then ''image.webp''
      else if mimeType = ''image/bmp'' then ''image.bmp''
      else if mimeType = ''image/tiff'' then ''image.tiff''
      else ''file.bin'')"
  unfolding specDefaultFilename_def map_of.simps fun_upd_apply fst_conv snd_conv
  by (simp only: option.case if_distrib [of "case_option _ _"] if_same_branch cong: if_cong)

lemma effectiveFilename_default:
  assumes "readerName r = None \<or> readerName r = Some []"
  shows "effectiveFilename r [] mimeType = specDefaultFilename mimeType"
proof -
  have "(case readerName r of Some n \<Rightarrow> if [] = [] then n else [] | None \<Rightarrow> []) = ([] :: string)"
    using assms by auto
  then show ?thesis
    unfolding effectiveFilename_def Let_def specDefaultFilename_chain
    by (simp only: if_True refl)
qed

lemma effectiveFilename_given: "filename \<noteq> [] \<Longrightarrow> effectiveFilename r filename mimeType = filename"
  by (cases "readerName r") (simp_all add: effectiveFilename_def)

lemma effectiveFilename_named:
  "readerName r = Some n \<Longrightarrow> n \<noteq> [] \<Longrightarrow> effectiveFilename r [] mimeType = n"
  by (simp add: effectiveFilename_def)

lemma specDefaultFilename_cases:
  "specDefaultFilename mimeType \<in>
     {''image.png'', ''image.jpg'', ''image.gif'', ''image.webp'', ''image.bmp'', ''image.tiff'',
      ''file.bin''}"
  by (simp add: specDefaultFilename_def)

lemma Base_plain:
  "Base ''image.png'' = ''image.png''" "Base ''image.jpg'' = ''image.jpg''"
  "Base ''image.gif'' = ''image.gif''" "Base ''image.webp'' = ''image.webp''"
  "Base ''image.bmp'' = ''image.bmp''" "Base ''image.tiff'' = ''image.tiff''"
  "Base ''file.bin'' = ''file.bin''"
  by (simp_all add: Base_def lastElement_def stripTrailingSlashes_def slash_def)

lemma escapeQuotes_plain:
  "escapeQuotes ''image.png'' = ''image.png''" "escapeQuotes ''image.jpg'' = ''image.jpg''"
  "escapeQuotes ''image.gif'' = ''image.gif''" "escapeQuotes ''image.webp'' = ''image.webp''"
  "escapeQuotes ''image.bmp'' = ''image.bmp''" "escapeQuotes ''image.tiff'' = ''image.tiff''"
  "escapeQuotes ''file.bin'' = ''file.bin''"
  by (simp_all add: backslash_def dquote_def)

lemma specDefaultFilename_plain:
  "Base (specDefaultFilename mimeType) = specDefaultFilename mimeType"
  "escapeQuotes (specDefaultFilename mimeType) = specDefaultFilename mimeType"
  using specDefaultFilename_cases [of mimeType]
  by (auto simp: Base_plain escapeQuotes_plain backslash_def dquote_def)


lemma Base_empty: "Base [] = ''.''"
  by (simp add: Base_def)


lemma CreateEditImage_Default_cases:
  assumes "CreateEditImage c DefaultFormBuilder request (NewWriter b) = (result, w, calls)"
  shows "(\<forall>p\<in>set (parts w). partName p \<in> Some ` set (concat (map callNames (editCalls request))))
         \<and> (calls \<noteq> [] \<longrightarrow> runCalls DefaultFormBuilder (editCalls request) (NewWriter b) = (None, w))"
proof -
  from assms have "thenDo DefaultFormBuilder (editCalls request)
      (postForm c DefaultFormBuilder (fullURL c ''/images/edits'' None)) (NewWriter b)
      = (result, w, calls)"
    by (simp add: CreateEditImage_runCalls)
  from thenDo_cases [OF this]
  obtain err where run: "runCalls DefaultFormBuilder (editCalls request) (NewWriter b) = (err, w)"
    and ok: "calls \<noteq> [] \<longrightarrow> err = None"
    by auto
  have "partName p \<in> Some ` set (concat (map callNames (editCalls request)))"
    if "p \<in> set (parts w)" for p
    using runCalls_Default_names [OF run that] by (simp add: NewWriter_def)
  with run ok show ?thesis by auto
qed

lemma editCalls_names:
  "set (concat (map callNames (editCalls request))) =
     {''image'', ''prompt'', ''n'', ''size''}
     \<union> (if Mask request \<noteq> None then {''mask''} else {})
     \<union> (if Model request \<noteq> [] then {''model''} else {})
     \<union> (if ResponseFormat request \<noteq> [] \<and> Model request \<noteq> CreateImageModelGptImage1
        then {''response_format''} else {})
     \<union> (if Quality request \<noteq> [] \<and> Model request \<noteq> CreateImageModelGptImage1
        then {''quality''} else {})
     \<union> (if User request \<noteq> [] then {''user''} else {})"
  by (cases "Mask request") (auto simp: editCalls_def)


lemma body_fieldPart: "body (fieldPart fieldname val) = val"
  by (simp add: fieldPart_def)

lemma Itoa_small:
  "Itoa (sint (0 :: 64 word)) = ''0''" "Itoa (sint (1 :: 64 word)) = ''1''"
  "Itoa 0 = ''0''" "Itoa 1 = ''1''"
  by (simp_all add: Itoa_def digit_def)

lemma CreateFormFileReader_gif:
  "CreateFormFileReader fieldname (Stream None [(''GIF89a'', Some EOF)]) [] w =
     (None, w\<lparr>parts := parts w @ [filePart fieldname ''image.gif'' ''image/gif'' ''GIF89a'']\<rparr>)"
  by (simp add: CreateFormFileReader_def detectMimeType_def DetectContentType_gif
      CreateFormFileReaderWithMimeType_eq Copy_sniffed effectiveFilename_def)

lemma body_filePart: "body (filePart fieldname filename mimeType content) = content"
  by (simp add: filePart_def)

lemma CreateEditImage_exampleEdit:
  "\<exists>result w calls.
     CreateEditImage exampleClient DefaultFormBuilder exampleEdit (NewWriter ''b'') = (result, w, calls)
     \<and> calls \<noteq> []
     \<and> partsRead w =
         [(Some ''image'', ''GIF89a''), (Some ''prompt'', ''a cat''), (Some ''model'', ''dall-e-2''),
          (Some ''n'', ''1''), (Some ''size'', ''256x256''), (Some ''response_format'', ''url''),
          (Some ''quality'', ''standard'')]"
  by (simp add: CreateEditImage_runCalls thenDo_def editCalls_exampleEdit DefaultFormBuilder_def
      CreateFormFileReader_gif WriteField_eq Close_def multipartClose_def postForm_def Let_def
      exampleClient_def NewWriter_def partsRead_def partName_filePart partName_fieldPart
      body_filePart body_fieldPart Itoa_small)


lemma CreateEditImage_gptEdit:
  "\<exists>result w calls.
     CreateEditImage exampleClient DefaultFormBuilder (exampleEdit\<lparr>Model := ''gpt-image-1''\<rparr>)
       (NewWriter ''b'') = (result, w, calls)
     \<and> calls \<noteq> []
     \<and> partsRead w =
         [(Some ''image'', ''GIF89a''), (Some ''prompt'', ''a cat''), (Some ''model'', ''gpt-image-1''),
          (Some ''n'', ''1''), (Some ''size'', ''256x256'')]"
  by (simp add: CreateEditImage_runCalls thenDo_def editCalls_def exampleEdit_def
      CreateImageModelGptImage1_def DefaultFormBuilder_def
      CreateFormFileReader_gif WriteField_eq Close_def multipartClose_def postForm_def Let_def
      exampleClient_def NewWriter_def partsRead_def partName_filePart partName_fieldPart
      body_filePart body_fieldPart Itoa_small)

subsection \<open>Reading the header of a file part from its bytes\<close>



























lemma partBytes_headerBlock: "partBytes b p = ''--'' @ b @ CRLF @ headerBlock p @ body p"
  by (simp add: partBytes_def headerBlock_def)



section \<open>The claims\<close>

subsection \<open>C1: sniffing loses no bytes\<close>

text \<open>
  Claim C1. Whenever the first \<^verbatim>\<open>Read\<close> of the input does not fail (it returns no error, or
  \<^verbatim>\<open>io.EOF\<close>, as it does on the empty stream), \<^verbatim>\<open>detectMimeType\<close> returns a reader, and
  copying that reader yields the prefix consumed for sniffing followed by exactly what the
  rest of the input yields, with the same final error. For an input that keeps to the
  \<^verbatim>\<open>io.Reader\<close> contract at its end this is what copying the untouched input yields: no
  byte is lost, duplicated or reordered.
\<close>

theorem detectMimeType_non_destructive:
  assumes "ReadSource 512 r = ((buffer, err), r')" and "err = None \<or> err = Some EOF"
  shows "\<exists>mimeType newReader.
           detectMimeType r = Inr (mimeType, newReader)
           \<and> Copy newReader = (buffer @ fst (Copy (Plain r')), snd (Copy (Plain r')))
           \<and> (stickyEOF r \<longrightarrow> Copy newReader = Copy (Plain r))"
proof -
  let ?new = "MultiReader [StringsReader buffer, r']"
  have det: "detectMimeType r = Inr (DetectContentType buffer, ?new)"
    using assms by (auto simp: detectMimeType_eq)
  have new: "Copy ?new = (buffer @ fst (drain r'), snd (drain r'))"
    by (rule Copy_sniffed)
  have "Copy ?new = drain r" if sticky: "stickyEOF r"
  proof (cases err)
    case None
    with ReadSource_drain [OF _ assms(1)] new show ?thesis by simp
  next
    case (Some e)
    with assms(2) have e: "err = Some EOF" by simp
    with stickyEOF_after_EOF [OF sticky] assms(1) have "drain r' = ([], None)" by blast
    with ReadSource_drain [OF _ assms(1)] e new show ?thesis by simp
  qed
  with det new show ?thesis by (simp add: Copy_Plain)
qed

theorem detectMimeType_non_destructive_witness:
  "ReadSource 512 (Stream None [(''GIF89a'', None), (''xyz'', Some EOF)])
     = ((''GIF89a'', None), Stream None [(''xyz'', Some EOF)])
   \<and> stickyEOF (Stream None [(''GIF89a'', None), (''xyz'', Some EOF)])
   \<and> (\<exists>mimeType newReader.
         detectMimeType (Stream None [(''GIF89a'', None), (''xyz'', Some EOF)])
           = Inr (mimeType, newReader)
         \<and> Copy newReader = (''GIF89axyz'', None)
         \<and> Copy newReader = Copy (Plain (Stream None [(''GIF89a'', None), (''xyz'', Some EOF)])))
   \<and> ReadSource 512 (Stream None []) = (([], Some EOF), Stream None [])
   \<and> (\<exists>mimeType newReader.
         detectMimeType (Stream None []) = Inr (mimeType, newReader)
         \<and> Copy newReader = ([], None))"
  using detectMimeType_non_destructive
          [of "Stream None [(''GIF89a'', None), (''xyz'', Some EOF)]" "''GIF89a''" None
              "Stream None [(''xyz'', Some EOF)]"]
        detectMimeType_non_destructive [of "Stream None []" "[]" "Some EOF" "Stream None []"]
  by (simp add: Copy_Plain)

subsection \<open>C2: what the model \<^verbatim>\<open>gpt-image-1\<close> is not sent\<close>

text \<open>
  Claim C2. Run against the default builder over an empty buffer, \<^verbatim>\<open>CreateEditImage\<close> for
  a request whose model is \<^verbatim>\<open>gpt-image-1\<close> writes no part named \<^verbatim>\<open>response_format\<close> and
  none named \<^verbatim>\<open>quality\<close>, whatever values the request holds and wherever the function
  ends. For any other model, when the function gets as far as building the request, a
  non-empty \<^verbatim>\<open>ResponseFormat\<close> and a non-empty \<^verbatim>\<open>Quality\<close> are each written as the part of
  that name with that value.
\<close>

theorem gpt_image_1_omits_format_and_quality:
  assumes "CreateEditImage c DefaultFormBuilder request (NewWriter b) = (result, w, calls)"
  shows "(Model request = ''gpt-image-1'' \<longrightarrow>
            (\<forall>p\<in>set (parts w).
               partName p \<noteq> Some ''response_format'' \<and> partName p \<noteq> Some ''quality''))
         \<and> (Model request \<noteq> ''gpt-image-1'' \<and> calls \<noteq> [] \<longrightarrow>
              (ResponseFormat request \<noteq> [] \<longrightarrow>
                 (\<exists>p\<in>set (parts w).
                    partName p = Some ''response_format'' \<and> body p = ResponseFormat request))
              \<and> (Quality request \<noteq> [] \<longrightarrow>
                 (\<exists>p\<in>set (parts w). partName p = Some ''quality'' \<and> body p = Quality request)))"
proof -
  note facts = CreateEditImage_Default_cases [OF assms]
  have names: "partName p \<in> Some ` set (concat (map callNames (editCalls request)))"
    if "p \<in> set (parts w)" for p
    using facts that by blast
  have gpt: "partName p \<noteq> Some ''response_format'' \<and> partName p \<noteq> Some ''quality''"
    if "Model request = ''gpt-image-1''" and "p \<in> set (parts w)" for p
    using names [OF that(2)] that(1)
    unfolding editCalls_names by (auto simp: CreateImageModelGptImage1_def split: if_splits)
  have run: "runCalls DefaultFormBuilder (editCalls request) (NewWriter b) = (None, w)"
    if "calls \<noteq> []"
    using facts that by blast
  have format: "\<exists>p\<in>set (parts w). partName p = Some ''response_format'' \<and> body p = ResponseFormat request"
    if "Model request \<noteq> ''gpt-image-1''" and "calls \<noteq> []" and "ResponseFormat request \<noteq> []"
  proof -
    from that have "FieldCall ''response_format'' (ResponseFormat request) \<in> set (editCalls request)"
      by (simp add: editCalls_def CreateImageModelGptImage1_def)
    from runCalls_Default_fields [OF run [OF that(2)] this] show ?thesis
      using partName_fieldPart body_fieldPart by blast
  qed
  have quality: "\<exists>p\<in>set (parts w). partName p = Some ''quality'' \<and> body p = Quality request"
    if "Model request \<noteq> ''gpt-image-1''" and "calls \<noteq> []" and "Quality request \<noteq> []"
  proof -
    from that have "FieldCall ''quality'' (Quality request) \<in> set (editCalls request)"
      by (simp add: editCalls_def CreateImageModelGptImage1_def)
    from runCalls_Default_fields [OF run [OF that(2)] this] show ?thesis
      using partName_fieldPart body_fieldPart by blast
  qed
  from gpt format quality show ?thesis by blast
qed

theorem gpt_image_1_omits_format_and_quality_witness:
  "Model (exampleEdit\<lparr>Model := ''gpt-image-1''\<rparr>) = ''gpt-image-1''
   \<and> ResponseFormat (exampleEdit\<lparr>Model := ''gpt-image-1''\<rparr>) = ''url''
   \<and> Quality (exampleEdit\<lparr>Model := ''gpt-image-1''\<rparr>) = ''standard''
   \<and> (\<exists>result w calls.
         CreateEditImage exampleClient DefaultFormBuilder (exampleEdit\<lparr>Model := ''gpt-image-1''\<rparr>)
           (NewWriter ''b'') = (result, w, calls)
         \<and> list_all (\<lambda>p. partName p \<noteq> Some ''response_format'' \<and> partName p \<noteq> Some ''quality'')
              (parts w)
         \<and> partsRead w =
             [(Some ''image'', ''GIF89a''), (Some ''prompt'', ''a cat''),
              (Some ''model'', ''gpt-image-1''), (Some ''n'', ''1''), (Some ''size'', ''256x256'')])
   \<and> Model exampleEdit = ''dall-e-2''
   \<and> (\<exists>result w calls.
         CreateEditImage exampleClient DefaultFormBuilder exampleEdit (NewWriter ''b'')
           = (result, w, calls)
         \<and> calls \<noteq> []
         \<and> list_ex (\<lambda>p. partName p = Some ''response_format'' \<and> body p = ''url'') (parts w)
         \<and> list_ex (\<lambda>p. partName p = Some ''quality'' \<and> body p = ''standard'') (parts w))"
proof -
  from CreateEditImage_gptEdit obtain r1 w1 c1 where
    run1: "CreateEditImage exampleClient DefaultFormBuilder (exampleEdit\<lparr>Model := ''gpt-image-1''\<rparr>)
             (NewWriter ''b'') = (r1, w1, c1)"
    and read1: "partsRead w1 =
         [(Some ''image'', ''GIF89a''), (Some ''prompt'', ''a cat''), (Some ''model'', ''gpt-image-1''),
          (Some ''n'', ''1''), (Some ''size'', ''256x256'')]"
    by blast
  from CreateEditImage_exampleEdit obtain r2 w2 c2 where
    run2: "CreateEditImage exampleClient DefaultFormBuilder exampleEdit (NewWriter ''b'') = (r2, w2, c2)"
    and sent2: "c2 \<noteq> []"
    by blast
  have model1: "Model (exampleEdit\<lparr>Model := ''gpt-image-1''\<rparr>) = ''gpt-image-1''"
    by simp
  have model2: "Model exampleEdit \<noteq> ''gpt-image-1''" and format2: "ResponseFormat exampleEdit = ''url''"
    and quality2: "Quality exampleEdit = ''standard''" and "Model exampleEdit = ''dall-e-2''"
    by (simp_all add: exampleEdit_def)
  from gpt_image_1_omits_format_and_quality [OF run1] model1
  have "list_all (\<lambda>p. partName p \<noteq> Some ''response_format'' \<and> partName p \<noteq> Some ''quality'') (parts w1)"
    by (simp add: list_all_iff)
  moreover from gpt_image_1_omits_format_and_quality [OF run2] model2 sent2 format2 quality2
  have "list_ex (\<lambda>p. partName p = Some ''response_format'' \<and> body p = ''url'') (parts w2)"
    and "list_ex (\<lambda>p. partName p = Some ''quality'' \<and> body p = ''standard'') (parts w2)"
    by (simp_all add: list_ex_iff)
  ultimately show ?thesis
    using run1 read1 run2 sent2 \<open>Model exampleEdit = ''dall-e-2''\<close>
    by (auto simp: exampleEdit_def)
qed

subsection \<open>C3: optional fields with absent values\<close>

text \<open>
  Claim C3, as stated, says that no optional field with an absent value becomes a part, in
  both functions. \<^verbatim>\<open>CreateVariImage\<close> writes \<^verbatim>\<open>n\<close>, \<^verbatim>\<open>size\<close> and \<^verbatim>\<open>response_format\<close>
  without a test, and \<^verbatim>\<open>CreateEditImage\<close> writes \<^verbatim>\<open>n\<close> and \<^verbatim>\<open>size\<close> without a test: for
  \<^verbatim>\<open>N = 0\<close> and empty strings the form holds the part \<^verbatim>\<open>n\<close> with the value \<^verbatim>\<open>0\<close> and
  parts with empty values.
\<close>

theorem absent_fields_counterexample:
  "N emptyVari = 0 \<and> Size emptyVari = [] \<and> ResponseFormat emptyVari = []
   \<and> partsRead (fst (snd (CreateVariImage exampleClient DefaultFormBuilder emptyVari (NewWriter ''b''))))
       = [(Some ''image'', ''GIF89a''), (Some ''n'', ''0''), (Some ''size'', []),
          (Some ''response_format'', [])]
   \<and> partsRead (fst (snd (CreateEditImage exampleClient DefaultFormBuilder
                            (exampleEdit\<lparr>N := 0, Size := []\<rparr>) (NewWriter ''b''))))
       = [(Some ''image'', ''GIF89a''), (Some ''prompt'', ''a cat''), (Some ''model'', ''dall-e-2''),
          (Some ''n'', ''0''), (Some ''size'', []), (Some ''response_format'', ''url''),
          (Some ''quality'', ''standard'')]"
  by (simp add: CreateVariImage_runCalls CreateEditImage_runCalls thenDo_def variCalls_def
      editCalls_def exampleEdit_def emptyVari_def CreateImageModelGptImage1_def DefaultFormBuilder_def
      CreateFormFileReader_gif WriteField_eq Close_def multipartClose_def postForm_def Let_def
      exampleClient_def NewWriter_def partsRead_def partName_filePart partName_fieldPart
      body_filePart body_fieldPart Itoa_small)

text \<open>
  Claim C3, amended. In \<^verbatim>\<open>CreateEditImage\<close> the fields that the code guards are omitted
  when absent: a nil mask, and an empty model, response format, quality or user leave no
  part of that name in the form.
\<close>

theorem edit_omits_absent_optional_fields:
  assumes "CreateEditImage c DefaultFormBuilder request (NewWriter b) = (result, w, calls)"
  shows "(Mask request = None \<longrightarrow> (\<forall>p\<in>set (parts w). partName p \<noteq> Some ''mask''))
         \<and> (Model request = [] \<longrightarrow> (\<forall>p\<in>set (parts w). partName p \<noteq> Some ''model''))
         \<and> (ResponseFormat request = [] \<longrightarrow>
               (\<forall>p\<in>set (parts w). partName p \<noteq> Some ''response_format''))
         \<and> (Quality request = [] \<longrightarrow> (\<forall>p\<in>set (parts w). partName p \<noteq> Some ''quality''))
         \<and> (User request = [] \<longrightarrow> (\<forall>p\<in>set (parts w). partName p \<noteq> Some ''user''))"
proof -
  have names: "partName p \<in> Some ` set (concat (map callNames (editCalls request)))"
    if "p \<in> set (parts w)" for p
    using CreateEditImage_Default_cases [OF assms] that by blast
  have "partName p \<noteq> Some ''mask''" if "Mask request = None" and "p \<in> set (parts w)" for p
    using names [OF that(2)] that(1) unfolding editCalls_names by (auto split: if_splits)
  moreover have "partName p \<noteq> Some ''model''" if "Model request = []" and "p \<in> set (parts w)" for p
    using names [OF that(2)] that(1) unfolding editCalls_names by (auto split: if_splits)
  moreover have "partName p \<noteq> Some ''response_format''"
    if "ResponseFormat request = []" and "p \<in> set (parts w)" for p
    using names [OF that(2)] that(1) unfolding editCalls_names by (auto split: if_splits)
  moreover have "partName p \<noteq> Some ''quality''" if "Quality request = []" and "p \<in> set (parts w)" for p
    using names [OF that(2)] that(1) unfolding editCalls_names by (auto split: if_splits)
  moreover have "partName p \<noteq> Some ''user''" if "User request = []" and "p \<in> set (parts w)" for p
    using names [OF that(2)] that(1) unfolding editCalls_names by (auto split: if_splits)
  ultimately show ?thesis by blast
qed

theorem edit_omits_absent_optional_fields_witness:
  "Mask (exampleEdit\<lparr>Model := [], ResponseFormat := [], Quality := []\<rparr>) = None
   \<and> User (exampleEdit\<lparr>Model := [], ResponseFormat := [], Quality := []\<rparr>) = []
   \<and> (\<exists>result w calls.
         CreateEditImage exampleClient DefaultFormBuilder
           (exampleEdit\<lparr>Model := [], ResponseFormat := [], Quality := []\<rparr>) (NewWriter ''b'')
           = (result, w, calls)
         \<and> list_all (\<lambda>p. partName p \<noteq> Some ''mask'' \<and> partName p \<noteq> Some ''model''
                          \<and> partName p \<noteq> Some ''response_format'' \<and> partName p \<noteq> Some ''quality''
                          \<and> partName p \<noteq> Some ''user'') (parts w)
         \<and> partsRead w =
             [(Some ''image'', ''GIF89a''), (Some ''prompt'', ''a cat''), (Some ''n'', ''1''),
              (Some ''size'', ''256x256'')])"
proof -
  let ?request = "exampleEdit\<lparr>Model := [], ResponseFormat := [], Quality := []\<rparr>"
  obtain result w calls where
    run: "CreateEditImage exampleClient DefaultFormBuilder ?request (NewWriter ''b'') = (result, w, calls)"
    by (metis prod.exhaust)
  have absent: "Mask ?request = None" "Model ?request = []" "ResponseFormat ?request = []"
    "Quality ?request = []" "User ?request = []"
    by (simp_all add: exampleEdit_def)
  from edit_omits_absent_optional_fields [OF run] absent
  have omitted: "list_all (\<lambda>p. partName p \<noteq> Some ''mask'' \<and> partName p \<noteq> Some ''model''
                          \<and> partName p \<noteq> Some ''response_format'' \<and> partName p \<noteq> Some ''quality''
                          \<and> partName p \<noteq> Some ''user'') (parts w)"
    by (simp add: list_all_iff)
  have "partsRead (fst (snd (CreateEditImage exampleClient DefaultFormBuilder ?request (NewWriter ''b''))))
      = [(Some ''image'', ''GIF89a''), (Some ''prompt'', ''a cat''), (Some ''n'', ''1''),
         (Some ''size'', ''256x256'')]"
    by (simp add: CreateEditImage_runCalls thenDo_def editCalls_def exampleEdit_def
        CreateImageModelGptImage1_def DefaultFormBuilder_def
        CreateFormFileReader_gif WriteField_eq Close_def multipartClose_def postForm_def Let_def
        exampleClient_def NewWriter_def partsRead_def partName_filePart partName_fieldPart
        body_filePart body_fieldPart Itoa_small)
  with run omitted absent show ?thesis by auto
qed

subsection \<open>C4: the base name of the file name\<close>

text \<open>
  Claim C4 says that every file part carries the base name of its file name. The part
  \<^verbatim>\<open>CreateFormFileReaderWithMimeType\<close> writes does. The part \<^verbatim>\<open>CreateFormFile\<close> writes does not:
  \<^verbatim>\<open>createFormFile\<close> hands the name of the file, as it was opened, to
  \<^verbatim>\<open>multipart.Writer.CreateFormFile\<close>, which escapes it and takes no base name. For a file
  opened as \<^verbatim>\<open>a/b/c.png\<close> the receiver reads the file name \<^verbatim>\<open>a/b/c.png\<close> from the first
  operation and \<^verbatim>\<open>c.png\<close> from the second.
\<close>

theorem CreateFormFile_keeps_directories:
  "map partFilename
     (parts (snd (CreateFormFile ''file'' (File ''a/b/c.png'' ''data'' 0) (NewWriter ''b''))))
     = [Some ''a/b/c.png'']
   \<and> map partFilename
       (parts (snd (CreateFormFileReaderWithMimeType ''file''
                      (Plain (OsFile (File ''a/b/c.png'' ''data'' 0))) ''a/b/c.png''
                      ''application/octet-stream'' (NewWriter ''b''))))
     = [Some ''c.png'']"
proof -
  have strip: "Base ''a/b/c.png'' = ''c.png''"
    by (simp add: Base_def lastElement_def stripTrailingSlashes_def slash_def)
  have "partFilename \<lparr>header = [(''Content-Disposition'', fileDisposition ''file'' ''a/b/c.png''),
                                 (''Content-Type'', ''application/octet-stream'')],
                       body = ''data''\<rparr> = Some ''a/b/c.png''"
    by (simp add: partFilename_def contentDisposition_def parseDisposition_file)
  then have "map partFilename
     (parts (snd (CreateFormFile ''file'' (File ''a/b/c.png'' ''data'' 0) (NewWriter ''b''))))
     = [Some ''a/b/c.png'']"
    by (simp add: CreateFormFile_def createFormFile_def multipartCreateFormFile_def Copy_Plain
        NewWriter_def writeLastPart_def CreatePart_def)
  moreover have "map partFilename
       (parts (snd (CreateFormFileReaderWithMimeType ''file''
                      (Plain (OsFile (File ''a/b/c.png'' ''data'' 0))) ''a/b/c.png''
                      ''application/octet-stream'' (NewWriter ''b''))))
     = [Some ''c.png'']"
    by (simp add: CreateFormFileReaderWithMimeType_eq NewWriter_def partFilename_filePart
        effectiveFilename_given strip)
  ultimately show ?thesis by simp
qed

subsection \<open>C5: escaped header values read back\<close>




subsection \<open>C6: the default file name\<close>

text \<open>
  Claim C6. When \<^verbatim>\<open>CreateFormFileReaderWithMimeType\<close> is called with an empty file name
  and a reader that has no \<^verbatim>\<open>Name\<close> method, the file name in the header of the part is the
  entry of the specification's table for the content type, and \<^verbatim>\<open>file.bin\<close> for a type
  the table does not list.
\<close>

theorem default_filename_from_type:
  assumes "readerName r = None"
  shows "\<exists>p. CreateFormFileReaderWithMimeType fieldname r [] mimeType w
               = (snd (Copy r), w\<lparr>parts := parts w @ [p]\<rparr>)
             \<and> contentDisposition p =
                 ''form-data; name='' @ [dquote] @ escapeQuotes fieldname @ [dquote]
                   @ ''; filename='' @ [dquote] @ specDefaultFilename mimeType @ [dquote]
             \<and> partFilename p = Some (specDefaultFilename mimeType)"
proof -
  let ?p = "filePart fieldname (effectiveFilename r [] mimeType) mimeType (fst (Copy r))"
  have name: "effectiveFilename r [] mimeType = specDefaultFilename mimeType"
    using assms by (simp add: effectiveFilename_default)
  have "contentDisposition ?p =
          ''form-data; name='' @ [dquote] @ escapeQuotes fieldname @ [dquote]
            @ ''; filename='' @ [dquote] @ specDefaultFilename mimeType @ [dquote]"
    by (simp add: contentDisposition_filePart name fileDisposition_def specDefaultFilename_plain)
  moreover have "partFilename ?p = Some (specDefaultFilename mimeType)"
    by (simp add: partFilename_filePart name specDefaultFilename_plain)
  ultimately show ?thesis
    using CreateFormFileReaderWithMimeType_eq [of fieldname r "[]" mimeType w] by blast
qed

theorem default_filename_from_type_witness:
  "readerName (Plain (StringsReader ''RIFFxxxxWEBPVP8 '')) = None
   \<and> (\<exists>p. CreateFormFileReaderWithMimeType ''image'' (Plain (StringsReader ''RIFFxxxxWEBPVP8 '')) []
               ''image/webp'' (NewWriter ''b'')
             = (None, (NewWriter ''b'')\<lparr>parts := [p]\<rparr>)
           \<and> contentDisposition p =
                 ''form-data; name='' @ [dquote] @ ''image'' @ [dquote]
                   @ ''; filename='' @ [dquote] @ ''image.webp'' @ [dquote]
           \<and> partFilename p = Some ''image.webp'')
   \<and> specDefaultFilename ''image/png'' = ''image.png''
   \<and> specDefaultFilename ''image/jpeg'' = ''image.jpg''
   \<and> specDefaultFilename ''image/jpg'' = ''image.jpg''
   \<and> specDefaultFilename ''image/gif'' = ''image.gif''
   \<and> specDefaultFilename ''image/bmp'' = ''image.bmp''
   \<and> specDefaultFilename ''image/tiff'' = ''image.tiff''
   \<and> specDefaultFilename ''text/plain; charset=utf-8'' = ''file.bin''"
  using default_filename_from_type
          [of "Plain (StringsReader ''RIFFxxxxWEBPVP8 '')" "''image''" "''image/webp''" "NewWriter ''b''"]
  by (simp add: specDefaultFilename_chain Copy_Plain NewWriter_def backslash_def dquote_def)

subsection \<open>C7: the empty stream and the fallback type\<close>

text \<open>
  Claim C7, as stated, says that sniffing an empty stream succeeds with a generic binary
  type. It does succeed, but \<^verbatim>\<open>http.DetectContentType\<close> answers
  \<^verbatim>\<open>text/plain; charset=utf-8\<close> for an empty prefix: every signature of the table needs at
  least one byte except the text signature, which accepts any prefix without a binary
  byte, the empty one included.
\<close>

theorem sniff_empty_counterexample:
  "detectMimeType (Stream None [])
     = Inr (''text/plain; charset=utf-8'', MultiReader [StringsReader [], Stream None []])
   \<and> ''text/plain; charset=utf-8'' \<noteq> ''application/octet-stream''"
  by (simp add: detectMimeType_eq DetectContentType_empty)

text \<open>
  Claim C7, amended. Sniffing a stream whose first \<^verbatim>\<open>Read\<close> returns no byte and no error
  other than \<^verbatim>\<open>io.EOF\<close> succeeds with the type \<^verbatim>\<open>text/plain; charset=utf-8\<close>; and a prefix
  that no signature of the table matches (the text signature included) gets the type
  \<^verbatim>\<open>application/octet-stream\<close>.
\<close>

theorem sniff_empty_and_fallback:
  "(ReadSource 512 r = (([], err), r') \<and> (err = None \<or> err = Some EOF) \<longrightarrow>
      detectMimeType r = Inr (''text/plain; charset=utf-8'', MultiReader [StringsReader [], r']))
   \<and> (list_all (\<lambda>sg. sigMatch sg (take sniffLen dat)
                       (length (takeWhile isWS (take sniffLen dat))) = []) sniffSignatures \<longrightarrow>
      DetectContentType dat = ''application/octet-stream'')"
proof -
  have empty: "detectMimeType r = Inr (''text/plain; charset=utf-8'', MultiReader [StringsReader [], r'])"
    if "ReadSource 512 r = (([], err), r')" and "err = None \<or> err = Some EOF"
    using that by (auto simp: detectMimeType_eq DetectContentType_empty)
  have cut: "(if length dat > sniffLen then take sniffLen dat else dat) = take sniffLen dat"
    by simp
  have fallback: "DetectContentType dat = ''application/octet-stream''"
    if "list_all (\<lambda>sg. sigMatch sg (take sniffLen dat)
                    (length (takeWhile isWS (take sniffLen dat))) = []) sniffSignatures"
    using that unfolding DetectContentType_def cut by (simp add: Let_def firstMatch_none)
  from empty fallback show ?thesis by blast
qed

theorem sniff_empty_and_fallback_witness:
  "ReadSource 512 (OsFile (File ''empty.png'' [] 0)) = (([], Some EOF), OsFile (File ''empty.png'' [] 0))
   \<and> detectMimeType (OsFile (File ''empty.png'' [] 0))
       = Inr (''text/plain; charset=utf-8'', MultiReader [StringsReader [], OsFile (File ''empty.png'' [] 0)])
   \<and> list_all (\<lambda>sg. sigMatch sg [CHR 0x01, CHR 0x02, CHR 0x03]
                      (length (takeWhile isWS [CHR 0x01, CHR 0x02, CHR 0x03])) = []) sniffSignatures
   \<and> DetectContentType [CHR 0x01, CHR 0x02, CHR 0x03] = ''application/octet-stream''
   \<and> detectMimeType (Stream None [([CHR 0x01, CHR 0x02, CHR 0x03], None)])
       = Inr (''application/octet-stream'',
              MultiReader [StringsReader [CHR 0x01, CHR 0x02, CHR 0x03], Stream None []])"
  using sniff_empty_and_fallback
          [of "OsFile (File ''empty.png'' [] 0)" "Some EOF" "OsFile (File ''empty.png'' [] 0)"
              "[CHR 0x01, CHR 0x02, CHR 0x03]"]
        nomatch_binary
  by (simp add: take_sniffLen_binary detectMimeType_eq)

subsection \<open>C8: errors end the function at once\<close>

text \<open>
  Claim C8. If the read of the sniffing prefix returns an error other than \<^verbatim>\<open>io.EOF\<close>,
  \<^verbatim>\<open>detectMimeType\<close> returns that error, and \<^verbatim>\<open>CreateFormFileReader\<close> returns it wrapped
  (the cause is kept) without creating a part. In \<^verbatim>\<open>CreateEditImage\<close> and
  \<^verbatim>\<open>CreateVariImage\<close>, run against any builder: when the calls before the \<open>i\<close>-th one
  succeed and the \<open>i\<close>-th returns an error, the function returns that error, the builder is
  in the state that call left (no later call ran, so no part was added), and no request
  was built or sent. By \<open>CreateEditImage_runCalls\<close> and \<open>CreateVariImage_runCalls\<close> the
  lists \<open>editCalls\<close> and \<open>variCalls\<close> hold every builder operation the functions perform.
\<close>

theorem errors_abort:
  "(ReadSource 512 r = ((buffer, Some e), r') \<and> e \<noteq> EOF \<longrightarrow>
      detectMimeType r = Inl e
      \<and> CreateFormFileReader fieldname r filename w
          = (Some (Wrapped ''failed to detect MIME type: '' e), w)
      \<and> cause (Wrapped ''failed to detect MIME type: '' e) = cause e)
   \<and> (i < length (editCalls request)
        \<and> runCalls builder (take i (editCalls request)) s = (None, sBefore)
        \<and> perform builder (editCalls request ! i) sBefore = (Some err, sAfter) \<longrightarrow>
      CreateEditImage c builder request s = (Inl err, sAfter, []))
   \<and> (j < length (variCalls vrequest)
        \<and> runCalls builder (take j (variCalls vrequest)) s = (None, tBefore)
        \<and> perform builder (variCalls vrequest ! j) tBefore = (Some verr, tAfter) \<longrightarrow>
      CreateVariImage c builder vrequest s = (Inl verr, tAfter, []))"
proof -
  have sniff: "detectMimeType r = Inl e
      \<and> CreateFormFileReader fieldname r filename w
          = (Some (Wrapped ''failed to detect MIME type: '' e), w)
      \<and> cause (Wrapped ''failed to detect MIME type: '' e) = cause e"
    if "ReadSource 512 r = ((buffer, Some e), r')" and "e \<noteq> EOF"
    using that by (simp add: detectMimeType_eq CreateFormFileReader_def)
  have edit: "CreateEditImage c builder request s = (Inl err, sAfter, [])"
    if "i < length (editCalls request)"
      and "runCalls builder (take i (editCalls request)) s = (None, sBefore)"
      and "perform builder (editCalls request ! i) sBefore = (Some err, sAfter)"
    using runCalls_fails_at [OF that] by (simp add: CreateEditImage_runCalls thenDo_def)
  have vari: "CreateVariImage c builder vrequest s = (Inl verr, tAfter, [])"
    if "j < length (variCalls vrequest)"
      and "runCalls builder (take j (variCalls vrequest)) s = (None, tBefore)"
      and "perform builder (variCalls vrequest ! j) tBefore = (Some verr, tAfter)"
    using runCalls_fails_at [OF that] by (simp add: CreateVariImage_runCalls thenDo_def)
  from sniff edit vari show ?thesis by blast
qed

theorem errors_abort_witness:
  "ReadSource 512 (Stream None [(''ab'', Some (Failure ''disk''))])
     = ((''ab'', Some (Failure ''disk'')), Stream None [])
   \<and> detectMimeType (Stream None [(''ab'', Some (Failure ''disk''))]) = Inl (Failure ''disk'')
   \<and> CreateFormFileReader ''image'' (Stream None [(''ab'', Some (Failure ''disk''))]) [] (NewWriter ''b'')
       = (Some (Wrapped ''failed to detect MIME type: '' (Failure ''disk'')), NewWriter ''b'')
   \<and> editCalls exampleEdit ! 4 = FieldCall ''size'' ''256x256''
   \<and> runCalls sizeRejectingBuilder (take 4 (editCalls exampleEdit)) []
       = (None, [''image'', ''prompt'', ''model'', ''n''])
   \<and> CreateEditImage exampleClient sizeRejectingBuilder exampleEdit []
       = (Inl (Failure ''write failed''), [''image'', ''prompt'', ''model'', ''n''], [])
   \<and> CreateVariImage exampleClient DefaultFormBuilder
         (exampleEdit\<lparr>Image := Stream None [(''ab'', Some (Failure ''disk''))]\<rparr>) (NewWriter ''b'')
       = (Inl (Wrapped ''failed to detect MIME type: '' (Failure ''disk'')), NewWriter ''b'', [])"
  using errors_abort
          [where r = "Stream None [(''ab'', Some (Failure ''disk''))]" and buffer = "''ab''"
             and e = "Failure ''disk''" and r' = "Stream None []" and fieldname = "''image''"
             and filename = "[]" and w = "NewWriter ''b''"
             and i = 4 and request = exampleEdit and builder = sizeRejectingBuilder and s = "[]"
             and sBefore = "[''image'', ''prompt'', ''model'', ''n'']" and err = "Failure ''write failed''"
             and sAfter = "[''image'', ''prompt'', ''model'', ''n'']" and c = exampleClient
             and j = "length (variCalls exampleEdit)"]
        errors_abort
          [where r = "Stream None [(''ab'', Some (Failure ''disk''))]" and buffer = "''ab''"
             and e = "Failure ''disk''" and r' = "Stream None []" and fieldname = "''image''"
             and filename = "[]" and w = "NewWriter ''b''"
             and i = "length (editCalls exampleEdit)" and request = exampleEdit
             and builder = DefaultFormBuilder and s = "NewWriter ''b''" and c = exampleClient
             and j = 0
             and vrequest = "exampleEdit\<lparr>Image := Stream None [(''ab'', Some (Failure ''disk''))]\<rparr>"
             and tBefore = "NewWriter ''b''"
             and verr = "Wrapped ''failed to detect MIME type: '' (Failure ''disk'')"
             and tAfter = "NewWriter ''b''"]
  by (simp add: editCalls_exampleEdit sizeRejectingBuilder_def variCalls_def
      DefaultFormBuilder_def detectMimeType_eq CreateFormFileReader_def)

subsection \<open>C9: the name of a named reader\<close>

text \<open>
  Claim C9, as stated, lets the result of \<^verbatim>\<open>Name()\<close> take precedence over the table of
  defaults whenever the file name passed in is empty and the reader has the method. When
  \<^verbatim>\<open>Name()\<close> returns the empty string, the code goes on to its second test (``if still no
  filename'') and takes the default from the table: the part is named \<^verbatim>\<open>image.png\<close>, not
  the base name of the empty string.
\<close>

theorem named_reader_counterexample:
  "readerName (Plain (Stream (Some []) [])) = Some []
   \<and> map partFilename
         (parts (snd (CreateFormFileReaderWithMimeType ''image'' (Plain (Stream (Some []) [])) []
                        ''image/png'' (NewWriter ''b''))))
       = [Some ''image.png'']
   \<and> Some ''image.png'' \<noteq> Some (Base [])"
  by (simp add: CreateFormFileReaderWithMimeType_eq NewWriter_def partFilename_filePart
      effectiveFilename_default specDefaultFilename_chain Base_plain Base_empty)

text \<open>
  Claim C9, amended. With an empty file name and a reader whose \<^verbatim>\<open>Name()\<close> returns a
  non-empty string, the part carries the base name of that string, whatever the content
  type; when \<^verbatim>\<open>Name()\<close> returns the empty string the default of the table is used; and a
  non-empty file name passed in is never overridden: the part carries its base name.
\<close>

theorem named_reader_filename:
  "\<exists>p. CreateFormFileReaderWithMimeType fieldname r filename mimeType w
          = (snd (Copy r), w\<lparr>parts := parts w @ [p]\<rparr>)
       \<and> (filename = [] \<and> readerName r = Some n \<and> n \<noteq> [] \<longrightarrow>
             contentDisposition p = fileDisposition fieldname (Base n)
             \<and> partFilename p = Some (Base n))
       \<and> (filename = [] \<and> readerName r = Some [] \<longrightarrow>
             partFilename p = Some (specDefaultFilename mimeType))
       \<and> (filename \<noteq> [] \<longrightarrow>
             contentDisposition p = fileDisposition fieldname (Base filename)
             \<and> partFilename p = Some (Base filename))"
proof -
  let ?p = "filePart fieldname (effectiveFilename r filename mimeType) mimeType (fst (Copy r))"
  have "contentDisposition ?p = fileDisposition fieldname (Base n) \<and> partFilename ?p = Some (Base n)"
    if "filename = []" and "readerName r = Some n" and "n \<noteq> []"
    using that by (simp add: contentDisposition_filePart partFilename_filePart effectiveFilename_named)
  moreover have "partFilename ?p = Some (specDefaultFilename mimeType)"
    if "filename = []" and "readerName r = Some []"
    using that
    by (simp add: partFilename_filePart effectiveFilename_default specDefaultFilename_plain)
  moreover have "contentDisposition ?p = fileDisposition fieldname (Base filename)
      \<and> partFilename ?p = Some (Base filename)"
    if "filename \<noteq> []"
    using that by (simp add: contentDisposition_filePart partFilename_filePart effectiveFilename_given)
  ultimately show ?thesis
    using CreateFormFileReaderWithMimeType_eq [of fieldname r filename mimeType w] by blast
qed


theorem named_reader_filename_witness:
  "readerName (Plain (OsFile (File ''photos/cat.png'' ''data'' 0))) = Some ''photos/cat.png''
   \<and> CreateFormFileReaderWithMimeType ''image'' (Plain (OsFile (File ''photos/cat.png'' ''data'' 0)))
         [] ''image/gif'' (NewWriter ''b'')
       = (None, (NewWriter ''b'')\<lparr>parts := [filePart ''image'' ''photos/cat.png'' ''image/gif'' ''data'']\<rparr>)
   \<and> partFilename (filePart ''image'' ''photos/cat.png'' ''image/gif'' ''data'') = Some ''cat.png''
   \<and> CreateFormFileReaderWithMimeType ''image'' (Plain (OsFile (File ''photos/cat.png'' ''data'' 0)))
         ''given/dog.png'' ''image/gif'' (NewWriter ''b'')
       = (None, (NewWriter ''b'')\<lparr>parts := [filePart ''image'' ''given/dog.png'' ''image/gif'' ''data'']\<rparr>)
   \<and> partFilename (filePart ''image'' ''given/dog.png'' ''image/gif'' ''data'') = Some ''dog.png''"
  using named_reader_filename
          [of "''image''" "Plain (OsFile (File ''photos/cat.png'' ''data'' 0))" "[]" "''image/gif''"
              "NewWriter ''b''" "''photos/cat.png''"]
        named_reader_filename
          [of "''image''" "Plain (OsFile (File ''photos/cat.png'' ''data'' 0))" "''given/dog.png''"
              "''image/gif''" "NewWriter ''b''" "[]"]
  by (simp add: CreateFormFileReaderWithMimeType_eq Copy_Plain NewWriter_def
      effectiveFilename_named effectiveFilename_given partFilename_filePart
      Base_def lastElement_def stripTrailingSlashes_def slash_def)

subsection \<open>C10: the type depends on the first chunk only\<close>

text \<open>
  Claim C10. \<^verbatim>\<open>detectMimeType\<close> reads once, with a buffer of 512 bytes: the reader it hands
  on is the sniffed bytes followed by the input as that one \<^verbatim>\<open>Read\<close> left it. For two
  inputs whose first \<^verbatim>\<open>Read\<close> returns the same bytes the detected types are equal, whatever
  follows; the type is \<^verbatim>\<open>http.DetectContentType\<close> of those bytes, which are at most 512.
\<close>

theorem detectMimeType_first_read_only:
  assumes "ReadSource 512 r1 = ((buffer, e1), r1')" and "ReadSource 512 r2 = ((buffer, e2), r2')"
    and "detectMimeType r1 = Inr (m1, n1)" and "detectMimeType r2 = Inr (m2, n2)"
  shows "m1 = m2 \<and> m1 = DetectContentType buffer \<and> length buffer \<le> 512
         \<and> n1 = MultiReader [StringsReader buffer, r1']
         \<and> n2 = MultiReader [StringsReader buffer, r2']"
  using assms ReadSource_length [OF assms(1)]
  by (auto simp: detectMimeType_eq split: if_splits)

theorem detectMimeType_first_read_only_witness:
  "ReadSource 512 (Stream None [(''GIF89a'', None), (''<html>'', None)])
     = ((''GIF89a'', None), Stream None [(''<html>'', None)])
   \<and> ReadSource 512 (Stream None [(''GIF89a'', Some EOF)]) = ((''GIF89a'', Some EOF), Stream None [])
   \<and> detectMimeType (Stream None [(''GIF89a'', None), (''<html>'', None)])
       = Inr (''image/gif'', MultiReader [StringsReader ''GIF89a'', Stream None [(''<html>'', None)]])
   \<and> detectMimeType (Stream None [(''GIF89a'', Some EOF)])
       = Inr (''image/gif'', MultiReader [StringsReader ''GIF89a'', Stream None []])
   \<and> ''image/gif'' = DetectContentType ''GIF89a''"
  using detectMimeType_first_read_only
          [of "Stream None [(''GIF89a'', None), (''<html>'', None)]" "''GIF89a''" None
              "Stream None [(''<html>'', None)]"
              "Stream None [(''GIF89a'', Some EOF)]" "Some EOF" "Stream None []"
              "''image/gif''" "MultiReader [StringsReader ''GIF89a'', Stream None [(''<html>'', None)]]"
              "''image/gif''" "MultiReader [StringsReader ''GIF89a'', Stream None []]"]
  by (simp add: detectMimeType_eq DetectContentType_gif)

text \<open>
  Two readers that hold the same bytes but hand them out in different pieces can get
  different types.
\<close>

lemma detectMimeType_chunking:
  "drain (Stream None [(''GIF8'', None), (''9a'', None)]) = drain (Stream None [(''GIF89a'', None)])
   \<and> detectMimeType (Stream None [(''GIF8'', None), (''9a'', None)])
       = Inr (''text/plain; charset=utf-8'', MultiReader [StringsReader ''GIF8'', Stream None [(''9a'', None)]])
   \<and> detectMimeType (Stream None [(''GIF89a'', None)])
       = Inr (''image/gif'', MultiReader [StringsReader ''GIF89a'', Stream None []])"
  by (simp add: detectMimeType_eq DetectContentType_gif DetectContentType_GIF8)

end
